theory Spec2Isabelle
  imports Complex_Main "HOL-Library.Sublist" "HOL-Library.AList"
begin

section \<open>Weather Lite: location resolution and the weather cache\<close>

text \<open>
  A shallow embedding of \<^verbatim>\<open>lib/location.ts\<close> (the location fallback chain) and of
  \<^verbatim>\<open>lib/cache.ts\<close> (the bounded, TTL-aware weather cache).

  Conventions.
  \<^item> A JavaScript \<^verbatim>\<open>number\<close> holding a coordinate is a rational (\<open>rat\<close>); a
    millisecond timestamp or duration (\<^verbatim>\<open>Date.now()\<close>, a TTL) is an \<open>int\<close>.
  \<^item> An optional property (\<^verbatim>\<open>city?: string\<close>) is an \<open>option\<close>; \<open>None\<close> is
    \<^verbatim>\<open>undefined\<close>.
  \<^item> A promise is modelled by its settled outcome: \<open>Inr v\<close> when it resolves with
    \<open>v\<close>, \<open>Inl e\<close> when it rejects with (or the code throws) \<open>e\<close>. Every
    \<^verbatim>\<open>try/catch\<close> of the source is a case distinction on such a sum.
  \<^item> The outside world (the geolocation device and the two HTTP services) is a
    record of outcomes, \<open>env\<close>; a function that talks to it also returns the
    list of requests it made, in order.
\<close>

subsection \<open>Data model of \<^verbatim>\<open>location.ts\<close>\<close>

type_synonym number = rat

datatype LocationSource = Gps | Ip | Manual | Default

record Location =
  latitude :: number
  longitude :: number
  city :: "string option"
  country :: "string option"
  source :: LocationSource

datatype LocationErrorType =
  PERMISSION_DENIED | POSITION_UNAVAILABLE | TIMEOUT | NOT_SUPPORTED
  | NETWORK_ERROR | UNKNOWN_ERROR

text \<open>A JavaScript \<^verbatim>\<open>Error\<close> object: its \<^verbatim>\<open>name\<close> and \<^verbatim>\<open>message\<close>.\<close>

record js_error =
  err_name :: string
  err_message :: string

text \<open>\<^verbatim>\<open>interface LocationError { type; message; originalError? }\<close>\<close>

record LocationError =
  le_type :: LocationErrorType
  le_message :: string
  le_originalError :: "js_error option"

text \<open>
  What a \<^verbatim>\<open>throw\<close> or a rejected promise carries: a genuine \<^verbatim>\<open>Error\<close>
  (\<^verbatim>\<open>error instanceof Error\<close> holds) or a plain \<^verbatim>\<open>LocationError\<close> object.
\<close>

datatype thrown = ThrownError js_error | ThrownLocationError LocationError

text \<open>\<^verbatim>\<open>interface IPLocationResponse\<close>; \<open>ipr_lat = None\<close> when
  \<^verbatim>\<open>typeof data.lat !== 'number'\<close>.\<close>

record IPLocationResponse =
  ipr_status :: string
  ipr_lat :: "number option"
  ipr_lon :: "number option"
  ipr_city :: "string option"
  ipr_country :: "string option"
  ipr_message :: "string option"

record LocationCacheEntry =
  location :: Location
  timestamp :: int
  ttl :: int

record LocationOptions =
  enableHighAccuracy :: "bool option"
  timeout :: "int option"
  maximumAge :: "int option"
  forceRefresh :: "bool option"

text \<open>The part of \<^verbatim>\<open>config\<close> (\<^verbatim>\<open>lib/env.ts\<close>) that the two modules read.\<close>

record Config =
  defaultCity :: string
  defaultLat :: number
  defaultLon :: number
  cache_ttl :: int
  cache_enabled :: bool

definition CACHE_TTL :: int where
  "CACHE_TTL = 300000"

subsection \<open>The outside world\<close>

text \<open>
  The \<^verbatim>\<open>address\<close> object of a Nominatim reverse lookup, and the parsed body:
  \<open>NullBody\<close> is a body on which \<^verbatim>\<open>data.address\<close> throws (\<^verbatim>\<open>null\<close>),
  \<open>Body None\<close> a body whose \<^verbatim>\<open>address\<close> is missing or falsy.
\<close>

record address =
  addr_city :: "string option"
  addr_town :: "string option"
  addr_village :: "string option"
  addr_hamlet :: "string option"
  addr_municipality :: "string option"
  addr_country :: "string option"

datatype nominatim_body = NullBody | Body "address option"

text \<open>\<^verbatim>\<open>await response.json()\<close> either throws or yields the parsed body.\<close>

datatype 'a json_outcome = JsonThrows js_error | Json 'a

text \<open>
  \<^verbatim>\<open>await fetch(...)\<close> either throws (network failure, abort) or yields a response
  with its \<^verbatim>\<open>ok\<close> flag, its \<^verbatim>\<open>status\<close> and what \<^verbatim>\<open>json()\<close> will do.
\<close>

datatype 'a fetch_outcome = FetchThrows js_error | Response bool nat "'a json_outcome"

text \<open>
  \<^verbatim>\<open>navigator.geolocation\<close>: absent, or \<^verbatim>\<open>getCurrentPosition\<close> calls the error
  callback with a \<^verbatim>\<open>code\<close> and a \<^verbatim>\<open>message\<close>, or the success callback with
  coordinates.
\<close>

datatype geo_outcome = GeoUnsupported | GeoError nat string | GeoPosition number number

record env =
  geolocation :: geo_outcome
  ip_api :: "IPLocationResponse option fetch_outcome"
  nominatim :: "number \<Rightarrow> number \<Rightarrow> nominatim_body fetch_outcome"

text \<open>
  The observable steps of a resolution: the three step announcements of
  \<^verbatim>\<open>detectLocation\<close> (its \<^verbatim>\<open>console.log\<close> lines at the entry of each step) and
  the requests sent to the providers (\<open>ReqGeolocation\<close> carries the
  \<^verbatim>\<open>PositionOptions\<close> passed to \<^verbatim>\<open>getCurrentPosition\<close>).
\<close>

datatype event =
  StepGps | StepIp | StepDefault
  | ReqGeolocation bool int int | ReqIpApi | ReqNominatim number number

fun is_request :: "event \<Rightarrow> bool" where
  "is_request (ReqGeolocation _ _ _) = True"
| "is_request ReqIpApi = True"
| "is_request (ReqNominatim _ _) = True"
| "is_request _ = False"

subsection \<open>JavaScript truthiness of optional strings\<close>

fun truthy :: "string option \<Rightarrow> bool" where
  "truthy None = False"
| "truthy (Some s) = (s \<noteq> [])"

text \<open>\<^verbatim>\<open>a || b\<close>\<close>

definition js_or :: "string option \<Rightarrow> string option \<Rightarrow> string option" where
  "js_or a b = (if truthy a then a else b)"

subsection \<open>\<^verbatim>\<open>reverseGeocode\<close>\<close>

text \<open>The result type \<^verbatim>\<open>{ city?: string; country?: string }\<close>.\<close>

record GeoNames =
  gn_city :: "string option"
  gn_country :: "string option"

definition no_names :: GeoNames where
  "no_names = \<lparr>gn_city = None, gn_country = None\<rparr>"

definition type_error :: "string \<Rightarrow> thrown" where
  "type_error prop = ThrownError
     \<lparr>err_name = ''TypeError'',
      err_message = ''Cannot read properties of null (reading '' @ prop @ '')''\<rparr>"

text \<open>The body of the \<^verbatim>\<open>try\<close> block: it may throw.\<close>

definition reverseGeocode_try :: "nominatim_body fetch_outcome \<Rightarrow> thrown + GeoNames" where
  "reverseGeocode_try response =
     (case response of
        FetchThrows e \<Rightarrow> Inl (ThrownError e)
      | Response ok status body \<Rightarrow>
          if \<not> ok then Inr no_names
          else (case body of
                  JsonThrows e \<Rightarrow> Inl (ThrownError e)
                | Json NullBody \<Rightarrow> Inl (type_error ''address'')
                | Json (Body None) \<Rightarrow> Inr no_names
                | Json (Body (Some a)) \<Rightarrow>
                    Inr \<lparr>gn_city = js_or (addr_city a) (js_or (addr_town a)
                                   (js_or (addr_village a) (js_or (addr_hamlet a)
                                   (addr_municipality a)))),
                         gn_country = addr_country a\<rparr>))"

text \<open>The whole function: the \<^verbatim>\<open>catch\<close> block returns \<^verbatim>\<open>{}\<close>.\<close>

definition reverseGeocode ::
  "env \<Rightarrow> number \<Rightarrow> number \<Rightarrow> (thrown + GeoNames) \<times> event list" where
  "reverseGeocode w lat lon =
     ((case reverseGeocode_try (nominatim w lat lon) of
         Inl e \<Rightarrow> Inr no_names
       | Inr r \<Rightarrow> Inr r),
      [ReqNominatim lat lon])"

text \<open>
  The failure modes of a reverse lookup: the request throws, the response is not
  2xx, the body does not parse, or the payload carries no address object.
\<close>

fun reverse_failed :: "nominatim_body fetch_outcome \<Rightarrow> bool" where
  "reverse_failed (FetchThrows e) = True"
| "reverse_failed (Response ok status (JsonThrows e)) = True"
| "reverse_failed (Response ok status (Json NullBody)) = True"
| "reverse_failed (Response ok status (Json (Body None))) = True"
| "reverse_failed (Response ok status (Json (Body (Some a)))) = (\<not> ok)"

subsection \<open>Strings\<close>

text \<open>Decimal digits of a natural number (\<^verbatim>\<open>String(n)\<close> for an integer \<open>n \<ge> 0\<close>).\<close>

fun show_nat :: "nat \<Rightarrow> string" where
  "show_nat n =
     (if n < 10 then [''0123456789'' ! n]
      else show_nat (n div 10) @ [''0123456789'' ! (n mod 10)])"

declare show_nat.simps [simp del]

text \<open>\<^verbatim>\<open>s.includes(sub)\<close>\<close>

fun str_includes :: "string \<Rightarrow> string \<Rightarrow> bool" where
  "str_includes [] sub = (sub = [])"
| "str_includes (c # cs) sub = (prefix sub (c # cs) \<or> str_includes cs sub)"

text \<open>\<^verbatim>\<open>s || d\<close> for an optional string \<open>s\<close> and a string literal \<open>d\<close>.\<close>

definition or_default :: "string option \<Rightarrow> string \<Rightarrow> string" where
  "or_default s d = (case s of None \<Rightarrow> d | Some v \<Rightarrow> if v \<noteq> [] then v else d)"

text \<open>\<^verbatim>\<open>new Error(msg)\<close>\<close>

definition new_Error :: "string \<Rightarrow> thrown" where
  "new_Error msg = ThrownError \<lparr>err_name = ''Error'', err_message = msg\<rparr>"

subsection \<open>\<^verbatim>\<open>getBrowserLocation\<close>\<close>

definition GPS_TIMEOUT :: int where "GPS_TIMEOUT = 5000"
definition MAX_AGE :: int where "MAX_AGE = 300000"
definition HIGH_ACCURACY :: bool where "HIGH_ACCURACY = True"

text \<open>\<^verbatim>\<open>GeolocationPositionError\<close>: PERMISSION_DENIED = 1, POSITION_UNAVAILABLE = 2,
  TIMEOUT = 3.\<close>

definition convertGeolocationError :: "nat \<Rightarrow> string \<Rightarrow> LocationError" where
  "convertGeolocationError code msg =
     (let orig = Some \<lparr>err_name = ''GeolocationPositionError'', err_message = msg\<rparr> in
      if code = 1 then
        \<lparr>le_type = PERMISSION_DENIED, le_message = ''User denied location permission'',
         le_originalError = orig\<rparr>
      else if code = 2 then
        \<lparr>le_type = POSITION_UNAVAILABLE, le_message = ''Location information is unavailable'',
         le_originalError = orig\<rparr>
      else if code = 3 then
        \<lparr>le_type = TIMEOUT, le_message = ''Location request timed out'',
         le_originalError = orig\<rparr>
      else
        \<lparr>le_type = UNKNOWN_ERROR, le_message = ''An unknown error occurred'',
         le_originalError = orig\<rparr>)"

text \<open>\<^verbatim>\<open>options?.f ?? d\<close>\<close>

definition opt_field :: "(LocationOptions \<Rightarrow> 'a option) \<Rightarrow> 'a \<Rightarrow> LocationOptions option \<Rightarrow> 'a" where
  "opt_field f d options =
     (case options of None \<Rightarrow> d | Some opts \<Rightarrow> (case f opts of None \<Rightarrow> d | Some v \<Rightarrow> v))"

definition geolocationOptions :: "LocationOptions option \<Rightarrow> event" where
  "geolocationOptions options =
     ReqGeolocation (opt_field enableHighAccuracy HIGH_ACCURACY options)
                    (opt_field timeout GPS_TIMEOUT options)
                    (opt_field maximumAge MAX_AGE options)"

text \<open>\<^verbatim>\<open>if (city) location.city = city; if (country) location.country = country;\<close>\<close>

definition assign_names :: "GeoNames \<Rightarrow> Location \<Rightarrow> Location" where
  "assign_names names loc =
     (let loc1 = (if truthy (gn_city names) then loc\<lparr>city := gn_city names\<rparr> else loc)
      in if truthy (gn_country names) then loc1\<lparr>country := gn_country names\<rparr> else loc1)"

definition getBrowserLocation ::
  "env \<Rightarrow> LocationOptions option \<Rightarrow> (thrown + Location) \<times> event list" where
  "getBrowserLocation w options =
     (case geolocation w of
        GeoUnsupported \<Rightarrow>
          (Inl (ThrownLocationError
                 \<lparr>le_type = NOT_SUPPORTED,
                  le_message = ''Geolocation is not supported by this browser'',
                  le_originalError = None\<rparr>), [])
      | GeoError code msg \<Rightarrow>
          (Inl (ThrownLocationError (convertGeolocationError code msg)),
           [geolocationOptions options])
      | GeoPosition lat lon \<Rightarrow>
          (let loc = \<lparr>latitude = lat, longitude = lon, city = None, country = None,
                      source = Gps\<rparr>;
               (r, evs) = reverseGeocode w lat lon
           in ((case r of
                  Inr names \<Rightarrow> Inr (assign_names names loc)
                | Inl error \<Rightarrow> Inr loc),
               geolocationOptions options # evs)))"

subsection \<open>\<^verbatim>\<open>getIPLocation\<close>\<close>

text \<open>The body of the outer \<^verbatim>\<open>try\<close> block.\<close>

definition getIPLocation_try :: "env \<Rightarrow> (thrown + Location) \<times> event list" where
  "getIPLocation_try w =
     (case ip_api w of
        FetchThrows e \<Rightarrow> (Inl (ThrownError e), [ReqIpApi])
      | Response ok status body \<Rightarrow>
          if \<not> ok then
            (Inl (new_Error (''IP geolocation request failed with status: '' @ show_nat status)),
             [ReqIpApi])
          else (case body of
              JsonThrows e \<Rightarrow> (Inl (ThrownError e), [ReqIpApi])
            | Json None \<Rightarrow> (Inl (type_error ''status''), [ReqIpApi])
            | Json (Some data) \<Rightarrow>
                if ipr_status data \<noteq> ''success'' then
                  (Inl (new_Error (or_default (ipr_message data) ''IP geolocation failed'')),
                   [ReqIpApi])
                else (case (ipr_lat data, ipr_lon data) of
                    (Some lat, Some lon) \<Rightarrow>
                      (let loc = \<lparr>latitude = lat, longitude = lon, city = None,
                                  country = None, source = Ip\<rparr>;
                           (r, evs) = reverseGeocode w lat lon
                       in ((case r of
                              Inr names \<Rightarrow> Inr (assign_names names loc)
                            | Inl error \<Rightarrow>
                                Inr (loc\<lparr>city := ipr_city data, country := ipr_country data\<rparr>)),
                           ReqIpApi # evs))
                  | _ \<Rightarrow>
                      (Inl (new_Error ''Invalid location data received from IP geolocation''),
                       [ReqIpApi]))))"

text \<open>The outer \<^verbatim>\<open>catch\<close> block: what is thrown in place of \<open>error\<close>.\<close>

definition getIPLocation_catch :: "thrown \<Rightarrow> LocationError" where
  "getIPLocation_catch error =
     (case error of
        ThrownError e \<Rightarrow>
          if err_name e = ''AbortError'' then
            \<lparr>le_type = TIMEOUT, le_message = ''IP geolocation request timed out'',
             le_originalError = Some e\<rparr>
          else if str_includes (err_message e) ''fetch'' then
            \<lparr>le_type = NETWORK_ERROR, le_message = ''Network error during IP geolocation'',
             le_originalError = Some e\<rparr>
          else
            \<lparr>le_type = UNKNOWN_ERROR,
             le_message = or_default (Some (err_message e)) ''Unknown error during IP geolocation'',
             le_originalError = Some e\<rparr>
      | ThrownLocationError _ \<Rightarrow>
          \<lparr>le_type = UNKNOWN_ERROR, le_message = ''Unknown error during IP geolocation'',
           le_originalError = None\<rparr>)"

definition getIPLocation :: "env \<Rightarrow> (thrown + Location) \<times> event list" where
  "getIPLocation w =
     (let (r, evs) = getIPLocation_try w
      in ((case r of
             Inr loc \<Rightarrow> Inr loc
           | Inl error \<Rightarrow> Inl (ThrownLocationError (getIPLocation_catch error))),
          evs))"

subsection \<open>\<^verbatim>\<open>detectLocation\<close>, \<^verbatim>\<open>getCachedLocation\<close>, \<^verbatim>\<open>clearLocationCache\<close>\<close>

text \<open>\<^verbatim>\<open>options?.forceRefresh\<close> as a condition.\<close>

definition forcing :: "LocationOptions option \<Rightarrow> bool" where
  "forcing options = opt_field forceRefresh False options"

text \<open>
  Step 3 of the chain, the innermost \<^verbatim>\<open>catch (ipError)\<close> block: the default
  location and its reverse lookup.
\<close>

definition default_step :: "Config \<Rightarrow> env \<Rightarrow> (thrown + Location) \<times> event list" where
  "default_step cfg w =
     (let loc = \<lparr>latitude = defaultLat cfg, longitude = defaultLon cfg, city = None,
                 country = None, source = Default\<rparr>;
          (r, evs) = reverseGeocode w (latitude loc) (longitude loc)
      in ((case r of
             Inr names \<Rightarrow> Inr (assign_names names loc)
           | Inl error \<Rightarrow> Inr (loc\<lparr>city := Some (defaultCity cfg)\<rparr>)),
          StepDefault # evs))"

text \<open>Steps 1 to 3: the nested \<^verbatim>\<open>try/catch\<close> blocks.\<close>

definition fallback_chain ::
  "Config \<Rightarrow> env \<Rightarrow> LocationOptions option \<Rightarrow> (thrown + Location) \<times> event list" where
  "fallback_chain cfg w options =
     (let (r1, evs1) = getBrowserLocation w options in
      case r1 of
        Inr loc \<Rightarrow> (Inr loc, StepGps # evs1)
      | Inl error \<Rightarrow>
          (let (r2, evs2) = getIPLocation w in
           case r2 of
             Inr loc \<Rightarrow> (Inr loc, StepGps # evs1 @ StepIp # evs2)
           | Inl ipError \<Rightarrow>
               (let (r3, evs3) = default_step cfg w
                in (r3, StepGps # evs1 @ StepIp # evs2 @ evs3))))"

text \<open>
  \<^verbatim>\<open>detectLocation(options)\<close>, run with the module variable \<^verbatim>\<open>locationCache\<close>
  holding \<open>locationCache\<close>; \<open>now\<close> is what \<^verbatim>\<open>Date.now()\<close> returns at the cache
  check and \<open>now'\<close> what it returns when the result is cached. The result is the
  settled promise, the new value of \<^verbatim>\<open>locationCache\<close> and the events.
\<close>

definition detectLocation ::
  "Config \<Rightarrow> env \<Rightarrow> int \<Rightarrow> int \<Rightarrow> LocationCacheEntry option \<Rightarrow> LocationOptions option
     \<Rightarrow> (thrown + Location) \<times> LocationCacheEntry option \<times> event list" where
  "detectLocation cfg w now now' locationCache options =
     (let run_chain =
        (let (r, evs) = fallback_chain cfg w options in
         case r of
           Inr loc \<Rightarrow>
             (Inr loc, Some \<lparr>location = loc, timestamp = now', ttl = CACHE_TTL\<rparr>, evs)
         | Inl e \<Rightarrow> (Inl e, locationCache, evs))
      in case (if \<not> forcing options then locationCache else None) of
           Some c \<Rightarrow>
             if now - timestamp c < ttl c then (Inr (location c), locationCache, [])
             else run_chain
         | None \<Rightarrow> run_chain)"

definition clearLocationCache :: "LocationCacheEntry option \<Rightarrow> LocationCacheEntry option" where
  "clearLocationCache locationCache = None"

definition getCachedLocation ::
  "int \<Rightarrow> LocationCacheEntry option \<Rightarrow> Location option \<times> LocationCacheEntry option" where
  "getCachedLocation now locationCache =
     (case locationCache of
        None \<Rightarrow> (None, None)
      | Some c \<Rightarrow>
          if now - timestamp c < ttl c then (Some (location c), locationCache)
          else (None, None))"

subsection \<open>Data model of \<^verbatim>\<open>cache.ts\<close>\<close>

text \<open>\<^verbatim>\<open>source: 'cache' | 'api'\<close>\<close>

datatype DataSource = Cache | Api

text \<open>
  \<^verbatim>\<open>interface WeatherData\<close> (\<^verbatim>\<open>lib/weather.ts\<close>). The cache never looks into
  \<^verbatim>\<open>current\<close>, \<^verbatim>\<open>forecast\<close> and \<^verbatim>\<open>location\<close>: their types are parameters.
\<close>

record ('c, 'f, 'l) WeatherData =
  current :: 'c
  forecast :: 'f
  wd_location :: 'l
  wd_timestamp :: int
  wd_source :: DataSource

record ('c, 'f, 'l) CacheEntry =
  data :: "('c, 'f, 'l) WeatherData"
  ce_timestamp :: int
  expiresAt :: int

text \<open>
  A JavaScript \<^verbatim>\<open>Map<string, CacheEntry>\<close> is an association list in insertion
  order with distinct keys: \<^verbatim>\<open>set\<close> on a present key replaces the value in place,
  on an absent key appends; \<^verbatim>\<open>keys().next().value\<close> is the key at the head.
\<close>

type_synonym ('c, 'f, 'l) js_map = "(string \<times> ('c, 'f, 'l) CacheEntry) list"

definition Map_get :: "('k \<times> 'v) list \<Rightarrow> 'k \<Rightarrow> 'v option" where
  "Map_get m k = map_of m k"

definition Map_has :: "('k \<times> 'v) list \<Rightarrow> 'k \<Rightarrow> bool" where
  "Map_has m k = (map_of m k \<noteq> None)"

definition Map_delete :: "('k \<times> 'v) list \<Rightarrow> 'k \<Rightarrow> ('k \<times> 'v) list" where
  "Map_delete m k = AList.delete k m"

definition Map_set :: "('k \<times> 'v) list \<Rightarrow> 'k \<Rightarrow> 'v \<Rightarrow> ('k \<times> 'v) list" where
  "Map_set m k v = AList.update k v m"

definition Map_keys :: "('k \<times> 'v) list \<Rightarrow> 'k list" where
  "Map_keys m = map fst m"

text \<open>
  \<^verbatim>\<open>class WeatherCache\<close>: the private fields. \<^verbatim>\<open>maxEntries\<close> is a
  \<^verbatim>\<open>number\<close> that the constructor does not validate; the model covers every
  integer.
\<close>

record ('c, 'f, 'l) WeatherCache =
  cache :: "('c, 'f, 'l) js_map"
  maxEntries :: int
  wc_ttl :: int

text \<open>
  \<^verbatim>\<open>constructor(maxEntries = 10, ttl?: number)\<close> with
  \<^verbatim>\<open>this.ttl = ttl || config.cache.ttl\<close>.
\<close>

definition WeatherCache_new ::
  "Config \<Rightarrow> int option \<Rightarrow> int option \<Rightarrow> ('c, 'f, 'l) WeatherCache" where
  "WeatherCache_new cfg maxEntries_arg ttl_arg =
     \<lparr>cache = [],
      maxEntries = (case maxEntries_arg of None \<Rightarrow> 10 | Some n \<Rightarrow> n),
      wc_ttl = (case ttl_arg of None \<Rightarrow> cache_ttl cfg
                | Some t \<Rightarrow> if t \<noteq> 0 then t else cache_ttl cfg)\<rparr>"

subsection \<open>\<^verbatim>\<open>getCacheKey\<close>\<close>

text \<open>
  \<^verbatim>\<open>Number.prototype.toFixed(f)\<close> on a finite number \<open>x\<close> of magnitude below
  \<open>10\<^sup>2\<^sup>1\<close>, following ECMA-262: the sign is taken off, \<open>n\<close> is the integer
  nearest to \<open>x * 10^f\<close> (the larger one on a tie), its digits are padded with
  zeros on the left to at least \<open>f + 1\<close> and the point is put before the last
  \<open>f\<close> of them. From \<open>10\<^sup>2\<^sup>1\<close> on JavaScript switches to exponent notation;
  coordinates stay below 180 in magnitude.
\<close>

definition toFixed :: "nat \<Rightarrow> number \<Rightarrow> string" where
  "toFixed f x =
     (let s = (if x < 0 then ''-'' else []);
          a = \<bar>x\<bar>;
          n = nat \<lfloor>a * 10 ^ f + 1 / 2\<rfloor>;
          m = show_nat n;
          m = (if length m \<le> f then replicate (f + 1 - length m) (CHR ''0'') @ m else m);
          k = length m
      in if f = 0 then s @ m
         else s @ take (k - f) m @ ''.'' @ drop (k - f) m)"

definition getCacheKey :: "number \<Rightarrow> number \<Rightarrow> string" where
  "getCacheKey lat lon = toFixed 4 lat @ '','' @ toFixed 4 lon"

subsection \<open>Reading a key back\<close>

text \<open>
  The specification's side of the cache key. \<open>rounded_to f x\<close> is \<open>x\<close> rounded
  to \<open>f\<close> decimal places (to the nearest multiple of \<open>10\<^sup>-\<^sup>f\<close>, a tie away from
  zero); \<open>digits_value\<close> reads a string of decimal digits as a number. A string
  \<open>s\<close> writes \<open>x\<close> rounded to \<open>f\<close> places when it is a minus sign if \<open>x\<close> is
  negative, then at least one digit, a point and exactly \<open>f\<close> digits, and these
  digits, read as a number of \<open>10\<^sup>-\<^sup>f\<close>, are the magnitude of \<open>rounded_to f x\<close>.
\<close>

definition rounded_to :: "nat \<Rightarrow> number \<Rightarrow> number" where
  "rounded_to f x = sgn x * of_int \<lfloor>\<bar>x\<bar> * 10 ^ f + 1 / 2\<rfloor> / 10 ^ f"

definition digit_of :: "char \<Rightarrow> nat" where
  "digit_of ch = of_char ch - 48"

definition is_digit :: "char \<Rightarrow> bool" where
  "is_digit ch \<longleftrightarrow> ch \<in> set ''0123456789''"

definition digits_value :: "string \<Rightarrow> nat" where
  "digits_value s = foldl (\<lambda>a ch. 10 * a + digit_of ch) 0 s"

definition writes_rounded :: "nat \<Rightarrow> number \<Rightarrow> string \<Rightarrow> bool" where
  "writes_rounded f x s \<longleftrightarrow>
     (\<exists>ip fp. s = (if x < 0 then ''-'' else []) @ ip @ ''.'' @ fp \<and>
        ip \<noteq> [] \<and> length fp = f \<and> list_all is_digit (ip @ fp) \<and>
        of_nat (digits_value (ip @ fp)) / 10 ^ f = \<bar>rounded_to f x\<bar>)"

subsection \<open>\<^verbatim>\<open>WeatherCache\<close> methods\<close>

text \<open>
  Every method takes the object's state and returns the new one; \<open>now\<close> is the
  value of \<^verbatim>\<open>Date.now()\<close> in the call, \<open>cfg\<close> the module's \<^verbatim>\<open>config\<close>
  (read through \<^verbatim>\<open>this.isEnabled\<close>), \<open>loc\<close> the pair
  \<^verbatim>\<open>(location.latitude, location.longitude)\<close>.
\<close>

definition clear :: "('c, 'f, 'l) WeatherCache \<Rightarrow> ('c, 'f, 'l) WeatherCache" where
  "clear c = c\<lparr>cache := []\<rparr>"

definition size_of :: "('c, 'f, 'l) WeatherCache \<Rightarrow> nat" where
  "size_of c = length (cache c)"

definition get ::
  "Config \<Rightarrow> int \<Rightarrow> ('c, 'f, 'l) WeatherCache \<Rightarrow> number \<times> number
     \<Rightarrow> ('c, 'f, 'l) WeatherData option \<times> ('c, 'f, 'l) WeatherCache" where
  "get cfg now c loc =
     (if \<not> cache_enabled cfg then (None, c)
      else
        let key = getCacheKey (fst loc) (snd loc) in
        case Map_get (cache c) key of
          None \<Rightarrow> (None, c)
        | Some entry \<Rightarrow>
            if now > expiresAt entry then (None, c\<lparr>cache := Map_delete (cache c) key\<rparr>)
            else (Some ((data entry)\<lparr>wd_source := Cache\<rparr>),
                  c\<lparr>cache := Map_set (Map_delete (cache c) key) key entry\<rparr>))"

definition set_entry ::
  "Config \<Rightarrow> int \<Rightarrow> ('c, 'f, 'l) WeatherCache \<Rightarrow> number \<times> number
     \<Rightarrow> ('c, 'f, 'l) WeatherData \<Rightarrow> ('c, 'f, 'l) WeatherCache" where
  "set_entry cfg now c loc d =
     (if \<not> cache_enabled cfg then c
      else
        let key = getCacheKey (fst loc) (snd loc);
            entry = \<lparr>data = d, ce_timestamp = now, expiresAt = now + wc_ttl c\<rparr>;
            m1 = (if int (length (cache c)) \<ge> maxEntries c \<and> \<not> Map_has (cache c) key
                  then (case cache c of
                          [] \<Rightarrow> cache c
                        | (firstKey, _) # _ \<Rightarrow>
                            if firstKey \<noteq> [] then Map_delete (cache c) firstKey
                            else cache c)
                  else cache c);
            m2 = (if Map_has m1 key then Map_delete m1 key else m1)
        in c\<lparr>cache := Map_set m2 key entry\<rparr>)"

definition has ::
  "int \<Rightarrow> ('c, 'f, 'l) WeatherCache \<Rightarrow> number \<times> number
     \<Rightarrow> bool \<times> ('c, 'f, 'l) WeatherCache" where
  "has now c loc =
     (let key = getCacheKey (fst loc) (snd loc) in
      case Map_get (cache c) key of
        None \<Rightarrow> (False, c)
      | Some entry \<Rightarrow>
          if now > expiresAt entry then (False, c\<lparr>cache := Map_delete (cache c) key\<rparr>)
          else (True, c))"

text \<open>\<^verbatim>\<open>getStats()\<close>: size, maxEntries, ttl, enabled.\<close>

definition getStats ::
  "Config \<Rightarrow> ('c, 'f, 'l) WeatherCache \<Rightarrow> nat \<times> int \<times> int \<times> bool" where
  "getStats cfg c = (size_of c, maxEntries c, wc_ttl c, cache_enabled cfg)"

subsection \<open>Sequences of cache operations\<close>

datatype ('c, 'f, 'l) cache_op =
  OpGet "number \<times> number" int
  | OpSet "number \<times> number" "('c, 'f, 'l) WeatherData" int
  | OpHas "number \<times> number" int
  | OpClear

fun exec ::
  "Config \<Rightarrow> ('c, 'f, 'l) cache_op \<Rightarrow> ('c, 'f, 'l) WeatherCache \<Rightarrow> ('c, 'f, 'l) WeatherCache" where
  "exec cfg (OpGet loc now) c = snd (get cfg now c loc)"
| "exec cfg (OpSet loc d now) c = set_entry cfg now c loc d"
| "exec cfg (OpHas loc now) c = snd (has now c loc)"
| "exec cfg OpClear c = clear c"

fun run ::
  "Config \<Rightarrow> ('c, 'f, 'l) cache_op list \<Rightarrow> ('c, 'f, 'l) WeatherCache \<Rightarrow> ('c, 'f, 'l) WeatherCache" where
  "run cfg [] c = c"
| "run cfg (x # xs) c = run cfg xs (exec cfg x c)"

text \<open>
  Recency, in the words of the specification: an operation touches a key when it is
  a \<^verbatim>\<open>set\<close> of that key (with caching enabled) or a \<^verbatim>\<open>get\<close> that hits it.
  \<open>last_touch cfg xs c\<close> runs \<open>xs\<close> from \<open>c\<close> and gives, for every key, the
  position (counted from 1) of the last operation that touched it, 0 if none did.
\<close>

fun touches ::
  "Config \<Rightarrow> ('c, 'f, 'l) cache_op \<Rightarrow> ('c, 'f, 'l) WeatherCache \<Rightarrow> string option" where
  "touches cfg (OpGet loc now) c =
     (if fst (get cfg now c loc) \<noteq> None then Some (getCacheKey (fst loc) (snd loc)) else None)"
| "touches cfg (OpSet loc d now) c =
     (if cache_enabled cfg then Some (getCacheKey (fst loc) (snd loc)) else None)"
| "touches cfg (OpHas loc now) c = None"
| "touches cfg OpClear c = None"

fun last_touch_from ::
  "Config \<Rightarrow> nat \<Rightarrow> (string \<Rightarrow> nat) \<Rightarrow> ('c, 'f, 'l) cache_op list \<Rightarrow> ('c, 'f, 'l) WeatherCache
     \<Rightarrow> (string \<Rightarrow> nat)" where
  "last_touch_from cfg i u [] c = u"
| "last_touch_from cfg i u (x # xs) c =
     last_touch_from cfg (Suc i)
       (case touches cfg x c of None \<Rightarrow> u | Some k \<Rightarrow> u(k := Suc i))
       xs (exec cfg x c)"

definition last_touch ::
  "Config \<Rightarrow> ('c, 'f, 'l) cache_op list \<Rightarrow> ('c, 'f, 'l) WeatherCache \<Rightarrow> (string \<Rightarrow> nat)" where
  "last_touch cfg xs c = last_touch_from cfg 0 (\<lambda>k. 0) xs c"

text \<open>
  The invariant of the store under a recency function \<open>u\<close> and a clock \<open>i\<close>: the
  keys are distinct and non-empty, they stand in the order of their last touch
  (oldest first), no touch is later than the clock, and at most \<open>maxEntries\<close>
  (at least one) of them are held.
\<close>

definition lru_inv :: "(string \<Rightarrow> nat) \<Rightarrow> nat \<Rightarrow> ('c, 'f, 'l) WeatherCache \<Rightarrow> bool" where
  "lru_inv u i c \<longleftrightarrow>
     distinct (Map_keys (cache c)) \<and>
     sorted_wrt (\<lambda>a b. u a < u b) (Map_keys (cache c)) \<and>
     (\<forall>k \<in> set (Map_keys (cache c)). k \<noteq> [] \<and> u k \<le> i) \<and>
     int (length (Map_keys (cache c))) \<le> maxEntries c \<and> 1 \<le> maxEntries c"

subsection \<open>Example configurations and worlds\<close>

text \<open>\<^verbatim>\<open>DEFAULT_CONFIG\<close> of \<^verbatim>\<open>lib/constants.ts\<close>, as \<^verbatim>\<open>config\<close> reads it.\<close>

definition default_config :: Config where
  "default_config =
     \<lparr>defaultCity = ''San Francisco, California'', defaultLat = 37.7749,
      defaultLon = - 122.4194, cache_ttl = 600000, cache_enabled = True\<rparr>"

definition network_down :: js_error where
  "network_down = \<lparr>err_name = ''TypeError'', err_message = ''fetch failed''\<rparr>"

definition paris_response :: IPLocationResponse where
  "paris_response =
     \<lparr>ipr_status = ''success'', ipr_lat = Some 48.8566, ipr_lon = Some 2.3522,
      ipr_city = Some ''Paris'', ipr_country = Some ''France'', ipr_message = None\<rparr>"

text \<open>Permission denied, no network at all.\<close>

definition offline_world :: env where
  "offline_world =
     \<lparr>geolocation = GeoError 1 ''User denied Geolocation'',
      ip_api = FetchThrows network_down,
      nominatim = (\<lambda>lat lon. FetchThrows network_down)\<rparr>"

text \<open>Permission denied, the IP service answers, the reverse lookup is down.\<close>

definition ip_only_world :: env where
  "ip_only_world =
     \<lparr>geolocation = GeoError 1 ''User denied Geolocation'',
      ip_api = Response True 200 (Json (Some paris_response)),
      nominatim = (\<lambda>lat lon. Response False 503 (Json NullBody))\<rparr>"

definition paris_location :: Location where
  "paris_location =
     \<lparr>latitude = 48.8566, longitude = 2.3522, city = Some ''Paris'',
      country = Some ''France'', source = Manual\<rparr>"

text \<open>Geolocation granted, the reverse lookup answers with Paris, France.\<close>

definition paris_address :: address where
  "paris_address =
     \<lparr>addr_city = Some ''Paris'', addr_town = None, addr_village = None, addr_hamlet = None,
      addr_municipality = None, addr_country = Some ''France''\<rparr>"

definition gps_world :: env where
  "gps_world =
     \<lparr>geolocation = GeoPosition 48.8566 2.3522,
      ip_api = FetchThrows network_down,
      nominatim = (\<lambda>lat lon. Response True 200 (Json (Body (Some paris_address))))\<rparr>"

text \<open>\<^verbatim>\<open>{ forceRefresh: true }\<close>\<close>

definition force_refresh :: LocationOptions where
  "force_refresh =
     \<lparr>enableHighAccuracy = None, timeout = None, maximumAge = None, forceRefresh = Some True\<rparr>"

text \<open>A payload with a temperature, a forecast and a place name, fetched from the API.\<close>

definition sample_data :: "(int, int list, string) WeatherData" where
  "sample_data =
     \<lparr>current = 18, forecast = [17, 19, 21], wd_location = ''San Francisco'',
      wd_timestamp = 1000, wd_source = Api\<rparr>"

definition sample_entry :: "(int, int list, string) CacheEntry" where
  "sample_entry = \<lparr>data = sample_data, ce_timestamp = 1000, expiresAt = 601000\<rparr>"

definition disabled_config :: Config where
  "disabled_config = default_config\<lparr>cache_enabled := False\<rparr>"

text \<open>A cache holding \<open>sample_entry\<close> for the coordinates \<open>(1, 2)\<close>.\<close>

definition sample_cache :: "(int, int list, string) WeatherCache" where
  "sample_cache = \<lparr>cache = [(''1.0000,2.0000'', sample_entry)], maxEntries = 10, wc_ttl = 600000\<rparr>"

text \<open>Two inserts and a read of the first key, for a cache of capacity 2.\<close>

definition sample_ops :: "(int, int list, string) cache_op list" where
  "sample_ops = [OpSet (1, 2) sample_data 1000, OpSet (3, 4) sample_data 1001, OpGet (1, 2) 1002]"

section \<open>Properties\<close>

lemma reverseGeocode_resolves: "\<exists>r. fst (reverseGeocode w lat lon) = Inr r"
  by (simp add: reverseGeocode_def split: sum.split)

lemma reverseGeocode_failed:
  "reverse_failed (nominatim w lat lon) \<Longrightarrow> fst (reverseGeocode w lat lon) = Inr no_names"
  by (cases "nominatim w lat lon" rule: reverse_failed.cases)
     (simp_all add: reverseGeocode_def reverseGeocode_try_def)

text \<open>
  Claim C8. \<^verbatim>\<open>reverseGeocode\<close> never rejects: for every world and every pair of
  coordinates it resolves with a result, and whenever the lookup fails (the request
  throws, the response is not 2xx, the body does not parse or has no address
  object) that result is the empty object, with no city and no country.
\<close>

theorem reverseGeocode_absorbs_errors:
  "(\<exists>r. fst (reverseGeocode w lat lon) = Inr r) \<and>
   (reverse_failed (nominatim w lat lon) \<longrightarrow>
      fst (reverseGeocode w lat lon) = Inr \<lparr>gn_city = None, gn_country = None\<rparr>)"
  using reverseGeocode_resolves [of w lat lon] reverseGeocode_failed [of w lat lon]
  by (simp add: no_names_def)

theorem reverseGeocode_absorbs_errors_witness:
  "reverse_failed (nominatim
      \<lparr>geolocation = GeoUnsupported,
       ip_api = FetchThrows \<lparr>err_name = ''TypeError'', err_message = ''fetch failed''\<rparr>,
       nominatim = (\<lambda>lat lon. Response False 503 (Json NullBody))\<rparr> 1 2) \<and>
   fst (reverseGeocode
      \<lparr>geolocation = GeoUnsupported,
       ip_api = FetchThrows \<lparr>err_name = ''TypeError'', err_message = ''fetch failed''\<rparr>,
       nominatim = (\<lambda>lat lon. Response False 503 (Json NullBody))\<rparr> 1 2)
     = Inr \<lparr>gn_city = None, gn_country = None\<rparr>"
  using reverseGeocode_absorbs_errors
    [of "\<lparr>geolocation = GeoUnsupported,
       ip_api = FetchThrows \<lparr>err_name = ''TypeError'', err_message = ''fetch failed''\<rparr>,
       nominatim = (\<lambda>lat lon. Response False 503 (Json NullBody))\<rparr>" 1 2]
  by simp


subsection \<open>The fallback chain\<close>

lemma getBrowserLocation_source:
  "fst (getBrowserLocation w options) = Inr loc \<Longrightarrow> source loc = Gps"
  by (auto simp: getBrowserLocation_def reverseGeocode_def assign_names_def Let_def
      split: geo_outcome.splits sum.splits if_splits)

lemma getIPLocation_source:
  "fst (getIPLocation w) = Inr loc \<Longrightarrow> source loc = Ip"
  by (auto simp: getIPLocation_def getIPLocation_try_def reverseGeocode_def assign_names_def
      Let_def
      split: fetch_outcome.splits json_outcome.splits option.splits sum.splits if_splits
        prod.splits)

lemma getIPLocation_no_default_step: "StepDefault \<notin> set (snd (getIPLocation w))"
  by (auto simp: getIPLocation_def getIPLocation_try_def reverseGeocode_def Let_def
      split: fetch_outcome.splits json_outcome.splits option.splits sum.splits if_splits
        prod.splits)

lemma getBrowserLocation_no_default_step:
  "StepDefault \<notin> set (snd (getBrowserLocation w options))"
  by (auto simp: getBrowserLocation_def reverseGeocode_def geolocationOptions_def Let_def
      split: geo_outcome.splits sum.splits prod.splits)

lemma getIPLocation_requests: "ReqIpApi \<in> set (snd (getIPLocation w))"
  by (auto simp: getIPLocation_def getIPLocation_try_def reverseGeocode_def Let_def
      split: fetch_outcome.splits json_outcome.splits option.splits sum.splits if_splits
        prod.splits)

lemma default_step_result:
  "\<exists>loc. fst (default_step cfg w) = Inr loc \<and> source loc = Default \<and>
         latitude loc = defaultLat cfg \<and> longitude loc = defaultLon cfg"
  by (auto simp: default_step_def reverseGeocode_def assign_names_def Let_def
      split: sum.splits)

lemma fallback_chain_gps:
  "fst (getBrowserLocation w options) = Inr loc \<Longrightarrow>
   fallback_chain cfg w options = (Inr loc, StepGps # snd (getBrowserLocation w options))"
  by (cases "getBrowserLocation w options"; cases "getIPLocation w";
      cases "default_step cfg w"; simp add: fallback_chain_def)

lemma fallback_chain_ip:
  "fst (getBrowserLocation w options) = Inl e \<Longrightarrow> fst (getIPLocation w) = Inr loc \<Longrightarrow>
   fallback_chain cfg w options =
     (Inr loc, StepGps # snd (getBrowserLocation w options) @ StepIp # snd (getIPLocation w))"
  by (cases "getBrowserLocation w options"; cases "getIPLocation w";
      cases "default_step cfg w"; simp add: fallback_chain_def)

lemma fallback_chain_default:
  "fst (getBrowserLocation w options) = Inl e \<Longrightarrow> fst (getIPLocation w) = Inl e' \<Longrightarrow>
   fallback_chain cfg w options =
     (fst (default_step cfg w),
      StepGps # snd (getBrowserLocation w options) @ StepIp # snd (getIPLocation w)
        @ snd (default_step cfg w))"
  by (cases "getBrowserLocation w options"; cases "getIPLocation w";
      cases "default_step cfg w"; simp add: fallback_chain_def)

lemma fallback_chain_resolves: "\<exists>loc. fst (fallback_chain cfg w options) = Inr loc"
proof (cases "fst (getBrowserLocation w options)")
  case (Inr loc)
  then show ?thesis by (simp add: fallback_chain_gps)
next
  case gps: (Inl e)
  show ?thesis
  proof (cases "fst (getIPLocation w)")
    case (Inr loc)
    with gps show ?thesis by (simp add: fallback_chain_ip)
  next
    case (Inl e')
    with gps default_step_result [of cfg w] show ?thesis
      by (auto simp: fallback_chain_default)
  qed
qed

lemma fallback_chain_requests: "\<exists>ev \<in> set (snd (fallback_chain cfg w options)). is_request ev"
proof (cases "fst (getBrowserLocation w options)")
  case (Inr loc)
  then have "geolocationOptions options \<in> set (snd (getBrowserLocation w options))"
    by (auto simp: getBrowserLocation_def Let_def split: geo_outcome.splits prod.splits)
  moreover have "is_request (geolocationOptions options)"
    by (simp add: geolocationOptions_def)
  ultimately show ?thesis
    using Inr by (auto simp: fallback_chain_gps)
next
  case gps: (Inl e)
  have ip: "is_request ReqIpApi" by simp
  show ?thesis
  proof (cases "fst (getIPLocation w)")
    case (Inr loc)
    with gps ip getIPLocation_requests [of w] show ?thesis
      unfolding fallback_chain_ip [OF gps Inr] by (metis Un_iff list.set_intros(2) set_append snd_conv)
  next
    case (Inl e')
    with gps ip getIPLocation_requests [of w] show ?thesis
      unfolding fallback_chain_default [OF gps Inl]
      by (metis Un_iff list.set_intros(2) set_append snd_conv)
  qed
qed

lemma detectLocation_miss:
  assumes "forcing options \<or> lc = None \<or> (\<exists>c. lc = Some c \<and> \<not> now - timestamp c < ttl c)"
    and "fallback_chain cfg w options = (Inr loc, evs)"
  shows "detectLocation cfg w now now' lc options =
           (Inr loc, Some \<lparr>location = loc, timestamp = now', ttl = CACHE_TTL\<rparr>, evs)"
  using assms
  by (auto simp: detectLocation_def Let_def split: option.splits)

lemma detectLocation_hit:
  assumes "\<not> forcing options" and "lc = Some c" and "now - timestamp c < ttl c"
  shows "detectLocation cfg w now now' lc options = (Inr (location c), lc, [])"
  using assms by (simp add: detectLocation_def Let_def)

lemmas location_eval =
  detectLocation_def fallback_chain_def default_step_def getIPLocation_def
  getIPLocation_try_def getIPLocation_catch_def getBrowserLocation_def reverseGeocode_def
  reverseGeocode_try_def assign_names_def no_names_def convertGeolocationError_def
  geolocationOptions_def opt_field_def forcing_def new_Error_def type_error_def
  or_default_def js_or_def Let_def
  default_config_def offline_world_def ip_only_world_def paris_response_def
  network_down_def paris_location_def

text \<open>
  Claim C1. Let the location cache be empty or expired. If the GPS step fails and
  the IP step succeeds, \<^verbatim>\<open>detectLocation\<close> resolves with the IP step's location,
  whose source is \<open>ip\<close>, and the default step is not entered. If both steps fail,
  it resolves with a location of source \<open>default\<close> at the configured default
  coordinates.
\<close>

theorem fallback_order:
  assumes "lc = None \<or> (\<exists>c. lc = Some c \<and> \<not> now - timestamp c < ttl c)"
  shows "(\<forall>e loc. fst (getBrowserLocation w options) = Inl e \<and> fst (getIPLocation w) = Inr loc
            \<longrightarrow> fst (detectLocation cfg w now now' lc options) = Inr loc \<and> source loc = Ip \<and>
                StepDefault \<notin> set (snd (snd (detectLocation cfg w now now' lc options)))) \<and>
         (\<forall>e e'. fst (getBrowserLocation w options) = Inl e \<and> fst (getIPLocation w) = Inl e'
            \<longrightarrow> (\<exists>loc. fst (detectLocation cfg w now now' lc options) = Inr loc \<and>
                      source loc = Default \<and> latitude loc = defaultLat cfg \<and>
                      longitude loc = defaultLon cfg))"
proof (intro conjI allI impI)
  fix e loc
  assume h: "fst (getBrowserLocation w options) = Inl e \<and> fst (getIPLocation w) = Inr loc"
  then have chain: "fallback_chain cfg w options =
      (Inr loc, StepGps # snd (getBrowserLocation w options) @ StepIp # snd (getIPLocation w))"
    by (simp add: fallback_chain_ip)
  have d: "detectLocation cfg w now now' lc options =
      (Inr loc, Some \<lparr>location = loc, timestamp = now', ttl = CACHE_TTL\<rparr>,
       StepGps # snd (getBrowserLocation w options) @ StepIp # snd (getIPLocation w))"
    using assms chain by (intro detectLocation_miss) auto
  show "fst (detectLocation cfg w now now' lc options) = Inr loc"
    by (simp add: d)
  show "source loc = Ip"
    using h getIPLocation_source [of w loc] by blast
  show "StepDefault \<notin> set (snd (snd (detectLocation cfg w now now' lc options)))"
    using getIPLocation_no_default_step [of w] getBrowserLocation_no_default_step [of w options]
    by (simp add: d)
next
  fix e e'
  assume h: "fst (getBrowserLocation w options) = Inl e \<and> fst (getIPLocation w) = Inl e'"
  obtain loc where loc: "fst (default_step cfg w) = Inr loc" "source loc = Default"
      "latitude loc = defaultLat cfg" "longitude loc = defaultLon cfg"
    using default_step_result [of cfg w] by blast
  from h loc(1) have chain: "fallback_chain cfg w options =
      (Inr loc, StepGps # snd (getBrowserLocation w options) @ StepIp # snd (getIPLocation w)
        @ snd (default_step cfg w))"
    by (simp add: fallback_chain_default)
  have "fst (detectLocation cfg w now now' lc options) = Inr loc"
    using assms chain by (subst detectLocation_miss) auto
  with loc show "\<exists>loc. fst (detectLocation cfg w now now' lc options) = Inr loc \<and>
      source loc = Default \<and> latitude loc = defaultLat cfg \<and> longitude loc = defaultLon cfg"
    by blast
qed

theorem fallback_order_witness:
  "(\<exists>e. fst (getBrowserLocation ip_only_world None) = Inl e) \<and>
   fst (getIPLocation ip_only_world)
     = Inr \<lparr>latitude = 48.8566, longitude = 2.3522, city = None, country = None, source = Ip\<rparr> \<and>
   fst (detectLocation default_config ip_only_world 0 1 None None)
     = Inr \<lparr>latitude = 48.8566, longitude = 2.3522, city = None, country = None, source = Ip\<rparr> \<and>
   StepDefault \<notin> set (snd (snd (detectLocation default_config ip_only_world 0 1 None None))) \<and>
   (\<exists>e. fst (getBrowserLocation offline_world None) = Inl e) \<and>
   (\<exists>e. fst (getIPLocation offline_world) = Inl e) \<and>
   (\<exists>loc. fst (detectLocation default_config offline_world 0 1 None None) = Inr loc \<and>
      source loc = Default \<and> latitude loc = 37.7749 \<and> longitude loc = - 122.4194)"
  using fallback_order [of None 0 ip_only_world None default_config 1]
    fallback_order [of None 0 offline_world None default_config 1]
  by (simp add: location_eval)

text \<open>
  Claim C2. \<^verbatim>\<open>detectLocation\<close> answers from the cache, with no event at all and
  the cache left as it is, when an entry exists, \<open>now - timestamp < ttl\<close> and
  \<^verbatim>\<open>forceRefresh\<close> is not set. In every other case (forced refresh, no entry,
  expired entry, also when the entry is still valid) the whole chain runs from its
  first step: the GPS step is announced first and, where geolocation is supported,
  queried; its location is the result if it resolves; if it rejects, the IP service
  is requested next and its location is the result if it resolves; only if that
  rejects too the default step runs and gives the result. The result replaces the
  cache entry. So the call is free of provider requests exactly when the cache
  answers.
\<close>

theorem cache_short_circuit:
  "(\<forall>c. \<not> forcing options \<and> lc = Some c \<and> now - timestamp c < ttl c \<longrightarrow>
      detectLocation cfg w now now' lc options = (Inr (location c), lc, [])) \<and>
   (forcing options \<or> lc = None \<or> (\<exists>c. lc = Some c \<and> \<not> now - timestamp c < ttl c) \<longrightarrow>
      (\<exists>loc evs.
         detectLocation cfg w now now' lc options =
           (Inr loc, Some \<lparr>location = loc, timestamp = now', ttl = CACHE_TTL\<rparr>, evs) \<and>
         fallback_chain cfg w options = (Inr loc, evs) \<and>
         hd evs = StepGps \<and>
         (geolocation w \<noteq> GeoUnsupported \<longrightarrow> geolocationOptions options \<in> set evs) \<and>
         (case fst (getBrowserLocation w options) of
            Inr g \<Rightarrow> loc = g \<and> evs = StepGps # snd (getBrowserLocation w options)
          | Inl e \<Rightarrow>
              ReqIpApi \<in> set evs \<and>
              (case fst (getIPLocation w) of
                 Inr i \<Rightarrow>
                   loc = i \<and>
                   evs = StepGps # snd (getBrowserLocation w options)
                           @ StepIp # snd (getIPLocation w)
               | Inl e' \<Rightarrow>
                   fst (default_step cfg w) = Inr loc \<and> source loc = Default \<and>
                   evs = StepGps # snd (getBrowserLocation w options)
                           @ StepIp # snd (getIPLocation w) @ snd (default_step cfg w))) \<and>
         (\<exists>ev \<in> set evs. is_request ev))) \<and>
   ((\<forall>ev \<in> set (snd (snd (detectLocation cfg w now now' lc options))). \<not> is_request ev)
      \<longleftrightarrow> \<not> forcing options \<and> (\<exists>c. lc = Some c \<and> now - timestamp c < ttl c))"
proof -
  let ?D = "detectLocation cfg w now now' lc options"
  let ?G = "getBrowserLocation w options"
  let ?I = "getIPLocation w"
  have hit: "?D = (Inr (location c), lc, [])"
    if "\<not> forcing options \<and> lc = Some c \<and> now - timestamp c < ttl c" for c
    using that by (simp add: detectLocation_hit)
  have miss: "\<exists>loc evs.
         ?D = (Inr loc, Some \<lparr>location = loc, timestamp = now', ttl = CACHE_TTL\<rparr>, evs) \<and>
         fallback_chain cfg w options = (Inr loc, evs) \<and>
         hd evs = StepGps \<and>
         (geolocation w \<noteq> GeoUnsupported \<longrightarrow> geolocationOptions options \<in> set evs) \<and>
         (case fst ?G of
            Inr g \<Rightarrow> loc = g \<and> evs = StepGps # snd ?G
          | Inl e \<Rightarrow>
              ReqIpApi \<in> set evs \<and>
              (case fst ?I of
                 Inr i \<Rightarrow> loc = i \<and> evs = StepGps # snd ?G @ StepIp # snd ?I
               | Inl e' \<Rightarrow>
                   fst (default_step cfg w) = Inr loc \<and> source loc = Default \<and>
                   evs = StepGps # snd ?G @ StepIp # snd ?I @ snd (default_step cfg w))) \<and>
         (\<exists>ev \<in> set evs. is_request ev)"
    if m: "forcing options \<or> lc = None \<or> (\<exists>c. lc = Some c \<and> \<not> now - timestamp c < ttl c)"
  proof -
    obtain loc where "fst (fallback_chain cfg w options) = Inr loc"
      using fallback_chain_resolves [of cfg w options] by blast
    then have chain: "fallback_chain cfg w options = (Inr loc, snd (fallback_chain cfg w options))"
      by (metis prod.collapse)
    let ?evs = "snd (fallback_chain cfg w options)"
    have d: "?D = (Inr loc, Some \<lparr>location = loc, timestamp = now', ttl = CACHE_TTL\<rparr>, ?evs)"
      using m chain by (rule detectLocation_miss)
    have gps_req: "geolocationOptions options \<in> set (snd ?G)" if "geolocation w \<noteq> GeoUnsupported"
      using that by (auto simp: getBrowserLocation_def Let_def split: geo_outcome.splits prod.splits)
    have steps: "hd ?evs = StepGps \<and>
        (geolocation w \<noteq> GeoUnsupported \<longrightarrow> geolocationOptions options \<in> set ?evs) \<and>
        (case fst ?G of
            Inr g \<Rightarrow> loc = g \<and> ?evs = StepGps # snd ?G
          | Inl e \<Rightarrow>
              ReqIpApi \<in> set ?evs \<and>
              (case fst ?I of
                 Inr i \<Rightarrow> loc = i \<and> ?evs = StepGps # snd ?G @ StepIp # snd ?I
               | Inl e' \<Rightarrow>
                   fst (default_step cfg w) = Inr loc \<and> source loc = Default \<and>
                   ?evs = StepGps # snd ?G @ StepIp # snd ?I @ snd (default_step cfg w)))"
    proof (cases "fst ?G")
      case (Inr g)
      from fallback_chain_gps [OF Inr, of cfg] chain gps_req Inr show ?thesis
        by auto
    next
      case gps: (Inl e)
      show ?thesis
      proof (cases "fst ?I")
        case (Inr i)
        from fallback_chain_ip [OF gps Inr, of cfg] chain gps_req gps Inr
          getIPLocation_requests [of w]
        show ?thesis by auto
      next
        case (Inl e')
        from fallback_chain_default [OF gps Inl, of cfg] chain gps_req gps Inl
          getIPLocation_requests [of w] default_step_result [of cfg w]
        show ?thesis by auto
      qed
    qed
    from d chain steps fallback_chain_requests [of cfg w options] show ?thesis
      by blast
  qed
  have iff: "(\<forall>ev \<in> set (snd (snd ?D)). \<not> is_request ev)
      \<longleftrightarrow> \<not> forcing options \<and> (\<exists>c. lc = Some c \<and> now - timestamp c < ttl c)"
  proof (cases "\<not> forcing options \<and> (\<exists>c. lc = Some c \<and> now - timestamp c < ttl c)")
    case True
    then show ?thesis using hit by auto
  next
    case False
    then have "forcing options \<or> lc = None \<or> (\<exists>c. lc = Some c \<and> \<not> now - timestamp c < ttl c)"
      by (cases lc) auto
    from miss [OF this] False show ?thesis by auto
  qed
  from hit miss iff show ?thesis by blast
qed

theorem cache_short_circuit_witness:
  "detectLocation default_config gps_world 1000 1001
     (Some \<lparr>location = paris_location, timestamp = 0, ttl = CACHE_TTL\<rparr>) None
     = (Inr paris_location, Some \<lparr>location = paris_location, timestamp = 0, ttl = CACHE_TTL\<rparr>, []) \<and>
   detectLocation default_config gps_world 1000 1001
     (Some \<lparr>location = paris_location, timestamp = 0, ttl = CACHE_TTL\<rparr>) (Some force_refresh)
     = (Inr (paris_location\<lparr>source := Gps\<rparr>),
        Some \<lparr>location = paris_location\<lparr>source := Gps\<rparr>, timestamp = 1001, ttl = CACHE_TTL\<rparr>,
        [StepGps, ReqGeolocation True 5000 300000, ReqNominatim 48.8566 2.3522]) \<and>
   detectLocation default_config ip_only_world 1000 1001
     (Some \<lparr>location = paris_location, timestamp = 0, ttl = CACHE_TTL\<rparr>) (Some force_refresh)
     = (Inr \<lparr>latitude = 48.8566, longitude = 2.3522, city = None, country = None, source = Ip\<rparr>,
        Some \<lparr>location = \<lparr>latitude = 48.8566, longitude = 2.3522, city = None, country = None,
                            source = Ip\<rparr>, timestamp = 1001, ttl = CACHE_TTL\<rparr>,
        [StepGps, ReqGeolocation True 5000 300000, StepIp, ReqIpApi,
         ReqNominatim 48.8566 2.3522])"
  using cache_short_circuit [of None
      "Some \<lparr>location = paris_location, timestamp = 0, ttl = CACHE_TTL\<rparr>" 1000
      default_config gps_world 1001]
    cache_short_circuit [of "Some force_refresh"
      "Some \<lparr>location = paris_location, timestamp = 0, ttl = CACHE_TTL\<rparr>" 1000
      default_config gps_world 1001]
    cache_short_circuit [of "Some force_refresh"
      "Some \<lparr>location = paris_location, timestamp = 0, ttl = CACHE_TTL\<rparr>" 1000
      default_config ip_only_world 1001]
  by (simp add: location_eval CACHE_TTL_def gps_world_def paris_address_def force_refresh_def
      GPS_TIMEOUT_def MAX_AGE_def HIGH_ACCURACY_def)

text \<open>
  Claim C4. \<^verbatim>\<open>detectLocation\<close> never rejects: whatever the geolocation device,
  the IP service and the reverse lookup do, and whatever the cache holds, the promise
  resolves with a location.
\<close>

theorem detectLocation_always_resolves:
  "\<exists>loc. fst (detectLocation cfg w now now' lc options) = Inr loc"
proof (cases "\<not> forcing options \<and> (\<exists>c. lc = Some c \<and> now - timestamp c < ttl c)")
  case True
  then show ?thesis by (auto simp: detectLocation_hit)
next
  case False
  then have m: "forcing options \<or> lc = None \<or> (\<exists>c. lc = Some c \<and> \<not> now - timestamp c < ttl c)"
    by (cases lc) auto
  obtain loc where "fst (fallback_chain cfg w options) = Inr loc"
    using fallback_chain_resolves [of cfg w options] by blast
  then have "fallback_chain cfg w options = (Inr loc, snd (fallback_chain cfg w options))"
    by (metis prod.collapse)
  from detectLocation_miss [OF m this] show ?thesis by simp
qed

text \<open>
  Claim C6, at a failing input. With the default configuration, geolocation
  denied and no network, the default step's reverse lookup fails; the location
  returned has no city, although \<^verbatim>\<open>config.location.defaultCity\<close> is
  \<^verbatim>\<open>'San Francisco, California'\<close>: \<^verbatim>\<open>reverseGeocode\<close> resolves with \<^verbatim>\<open>{}\<close>, so
  the \<^verbatim>\<open>catch\<close> block that assigns the configured city never runs.
\<close>

theorem default_city_fallback_not_taken:
  "defaultCity default_config = ''San Francisco, California'' \<and>
   reverse_failed (nominatim offline_world (defaultLat default_config) (defaultLon default_config)) \<and>
   fst (detectLocation default_config offline_world 0 1 None None)
     = Inr \<lparr>latitude = 37.7749, longitude = - 122.4194, city = None, country = None,
            source = Default\<rparr>"
  by (simp add: location_eval)

text \<open>
  Claim C7, at a failing input. The IP service answers with Paris, France and the
  reverse lookup fails; the location returned has neither city nor country:
  \<^verbatim>\<open>reverseGeocode\<close> resolves with \<^verbatim>\<open>{}\<close>, so the \<^verbatim>\<open>catch\<close> block that
  copies \<^verbatim>\<open>data.city\<close> and \<^verbatim>\<open>data.country\<close> never runs.
\<close>

theorem ip_names_fallback_not_taken:
  "ip_api ip_only_world = Response True 200 (Json (Some paris_response)) \<and>
   ipr_city paris_response = Some ''Paris'' \<and> ipr_country paris_response = Some ''France'' \<and>
   reverse_failed (nominatim ip_only_world 48.8566 2.3522) \<and>
   fst (getIPLocation ip_only_world)
     = Inr \<lparr>latitude = 48.8566, longitude = 2.3522, city = None, country = None, source = Ip\<rparr>"
  by (simp add: location_eval)



subsection \<open>Cache keys\<close>

lemma floor_rat_numeral: "\<lfloor>numeral a / numeral b :: rat\<rfloor> = numeral a div numeral b"
  using floor_divide_of_int_eq [of "numeral a" "numeral b", where ?'a = rat] by simp

lemma show_nat_numeral:
  "show_nat (numeral k) =
     (if (numeral k :: nat) < 10 then [''0123456789'' ! numeral k]
      else show_nat (numeral k div 10) @ [''0123456789'' ! (numeral k mod 10)])"
  by (rule show_nat.simps)

lemma show_nat_0: "show_nat 0 = ''0''"
  by (simp add: show_nat.simps)

lemma show_nat_1: "show_nat (Suc 0) = ''1''"
  by (simp add: show_nat.simps)

lemma replicate_numeral: "replicate (numeral k) x = x # replicate (pred_numeral k) x"
  by (simp add: numeral_eq_Suc)

lemmas key_eval =
  getCacheKey_def toFixed_def Let_def floor_rat_numeral show_nat_numeral show_nat_0
  show_nat_1 replicate_numeral

lemma key_12: "getCacheKey 1 2 = ''1.0000,2.0000''"
  by (simp add: key_eval)

lemma key_decimal_long:
  "getCacheKey 37.774912345 (- 122.419412345) = ''37.7749,-122.4194''"
  by (simp add: key_eval)

lemma key_decimal_short: "getCacheKey 37.77491 (- 122.41941) = ''37.7749,-122.4194''"
  by (simp add: key_eval)

text \<open>The same for the IEEE 754 doubles nearest to these four decimal literals.\<close>

lemma key_double_long:
  "getCacheKey (5316346286277973 / 140737488355328) (- 8614500309685267 / 70368744177664)
     = ''37.7749,-122.4194''"
  by (simp add: key_eval)

lemma key_double_short:
  "getCacheKey (5316345956248563 / 140737488355328) (- 4307250072335281 / 35184372088832)
     = ''37.7749,-122.4194''"
  by (simp add: key_eval)

lemma getCacheKey_nonempty: "getCacheKey lat lon \<noteq> []"
  by (simp add: getCacheKey_def)

subsection \<open>Reading and writing one entry\<close>

lemma set_entry_stores:
  "cache_enabled cfg \<Longrightarrow>
   Map_get (cache (set_entry cfg now c loc d)) (getCacheKey (fst loc) (snd loc))
     = Some \<lparr>data = d, ce_timestamp = now, expiresAt = now + wc_ttl c\<rparr>"
  by (simp add: set_entry_def Let_def Map_get_def Map_set_def update_conv')

lemma get_hit:
  assumes "cache_enabled cfg"
    and "Map_get (cache c) (getCacheKey (fst loc) (snd loc)) = Some entry"
    and "\<not> now > expiresAt entry"
  shows "get cfg now c loc =
           (Some ((data entry)\<lparr>wd_source := Cache\<rparr>),
            c\<lparr>cache := Map_set (Map_delete (cache c) (getCacheKey (fst loc) (snd loc)))
                          (getCacheKey (fst loc) (snd loc)) entry\<rparr>)"
  using assms by (simp add: get_def Let_def)

lemma promote_keeps_entries:
  "map_of m k = Some e \<Longrightarrow> map_of (AList.update k e (AList.delete k m)) = map_of m"
  by (auto simp: update_conv' delete_conv' fun_eq_iff)

text \<open>
  Claim C5. A \<^verbatim>\<open>get\<close> that hits an unexpired entry returns the stored payload
  with \<^verbatim>\<open>source\<close> set to \<open>cache\<close> and every other field as stored, while the
  cache maps every key, this one included, to the entry it held before: the stored
  payload keeps its own \<^verbatim>\<open>source\<close>.
\<close>

theorem get_hit_marks_only_the_copy:
  assumes "cache_enabled cfg"
    and "Map_get (cache c) (getCacheKey (fst loc) (snd loc)) = Some entry"
    and "\<not> now > expiresAt entry"
  shows "(\<exists>r. fst (get cfg now c loc) = Some r \<and> wd_source r = Cache \<and>
              current r = current (data entry) \<and> forecast r = forecast (data entry) \<and>
              wd_location r = wd_location (data entry) \<and>
              wd_timestamp r = wd_timestamp (data entry)) \<and>
         Map_get (cache (snd (get cfg now c loc))) (getCacheKey (fst loc) (snd loc)) = Some entry \<and>
         (\<forall>k. Map_get (cache (snd (get cfg now c loc))) k = Map_get (cache c) k)"
proof -
  have kept: "Map_get (cache (snd (get cfg now c loc))) k = Map_get (cache c) k" for k
    using assms(2) by (simp add: get_hit [OF assms] Map_get_def Map_set_def Map_delete_def
        promote_keeps_entries)
  have "fst (get cfg now c loc) = Some ((data entry)\<lparr>wd_source := Cache\<rparr>)"
    by (simp add: get_hit [OF assms])
  with kept assms(2) show ?thesis by simp
qed

theorem get_hit_marks_only_the_copy_witness:
  "cache_enabled default_config \<and>
   Map_get (cache sample_cache) (getCacheKey (fst (1, 2)) (snd (1, 2))) = Some sample_entry \<and>
   \<not> 5000 > expiresAt sample_entry \<and>
   fst (get default_config 5000 sample_cache (1, 2)) = Some (sample_data\<lparr>wd_source := Cache\<rparr>) \<and>
   Map_get (cache (snd (get default_config 5000 sample_cache (1, 2)))) ''1.0000,2.0000''
     = Some sample_entry \<and>
   wd_source (data sample_entry) = Api"
  using get_hit_marks_only_the_copy [of default_config sample_cache "(1, 2)" sample_entry 5000]
  by (simp add: key_12 get_def Map_get_def Map_set_def Map_delete_def default_config_def
      sample_cache_def sample_entry_def sample_data_def)

subsection \<open>The key writes the rounded coordinates\<close>

lemma digit_of_nth: "d < 10 \<Longrightarrow> digit_of (''0123456789'' ! d) = d"
proof -
  assume "d < 10"
  then have "d = 0 \<or> d = 1 \<or> d = 2 \<or> d = 3 \<or> d = 4 \<or> d = 5 \<or> d = 6 \<or> d = 7
      \<or> d = 8 \<or> d = 9"
    by arith
  then show ?thesis
    by (elim disjE) (simp_all add: digit_of_def)
qed

lemma is_digit_nth: "d < 10 \<Longrightarrow> is_digit (''0123456789'' ! d)"
proof -
  assume "d < 10"
  then have "d < length ''0123456789''" by simp
  then show ?thesis
    unfolding is_digit_def by (rule nth_mem)
qed

lemma digits_value_snoc: "digits_value (s @ [ch]) = 10 * digits_value s + digit_of ch"
  by (simp add: digits_value_def)

lemma digits_value_show_nat: "digits_value (show_nat n) = n"
proof (induction n rule: show_nat.induct)
  case (1 n)
  show ?case
  proof (cases "n < 10")
    case True
    then show ?thesis
      by (subst show_nat.simps) (simp add: digits_value_def digit_of_nth)
  next
    case False
    with 1 have "digits_value (show_nat (n div 10)) = n div 10" by simp
    with False show ?thesis
      by (subst show_nat.simps) (simp add: digits_value_snoc digit_of_nth)
  qed
qed

lemma digits_show_nat: "list_all is_digit (show_nat n)"
proof (induction n rule: show_nat.induct)
  case (1 n)
  show ?case
  proof (cases "n < 10")
    case True
    then show ?thesis
      by (subst show_nat.simps) (simp add: is_digit_nth)
  next
    case False
    with 1 have "list_all is_digit (show_nat (n div 10))" by simp
    with False show ?thesis
      by (subst show_nat.simps) (simp add: is_digit_nth)
  qed
qed

lemma digits_value_zeros: "digits_value (replicate k (CHR ''0'') @ s) = digits_value s"
proof -
  have "foldl (\<lambda>a ch. 10 * a + digit_of ch) 0 (replicate k (CHR ''0'')) = 0"
    by (induction k) (simp_all add: digit_of_def)
  then show ?thesis
    by (simp add: digits_value_def)
qed

lemma is_digit_zero: "is_digit (CHR ''0'')"
  by (simp add: is_digit_def)

lemma abs_rounded_to: "\<bar>rounded_to f x\<bar> = of_int \<lfloor>\<bar>x\<bar> * 10 ^ f + 1 / 2\<rfloor> / 10 ^ f"
proof -
  have nonneg: "0 \<le> \<lfloor>\<bar>x\<bar> * 10 ^ f + 1 / 2\<rfloor>"
    by simp
  show ?thesis
  proof (cases "x = 0")
    case True
    have "\<lfloor>1 / 2 :: rat\<rfloor> = 0" by (simp add: floor_eq_iff)
    with True show ?thesis by (simp add: rounded_to_def)
  next
    case False
    then have "\<bar>sgn x\<bar> = 1" by (simp add: abs_sgn_eq)
    with nonneg show ?thesis
      by (simp add: rounded_to_def abs_mult abs_divide)
  qed
qed

lemma rounded_to_nearest: "\<bar>rounded_to f x - x\<bar> \<le> 1 / (2 * 10 ^ f)"
proof -
  let ?p = "(10::rat) ^ f"
  let ?n = "of_int \<lfloor>\<bar>x\<bar> * ?p + 1 / 2\<rfloor> :: rat"
  have p: "0 < ?p" by simp
  have up: "?n \<le> \<bar>x\<bar> * ?p + 1 / 2" by (rule of_int_floor_le)
  have lo: "\<bar>x\<bar> * ?p + 1 / 2 < ?n + 1"
    using floor_correct [of "\<bar>x\<bar> * ?p + 1 / 2"] by simp
  have half: "\<bar>?n - \<bar>x\<bar> * ?p\<bar> \<le> 1 / 2"
    using up lo by linarith
  have eq: "?n / ?p - \<bar>x\<bar> = (?n - \<bar>x\<bar> * ?p) / ?p"
    using p by (simp add: diff_divide_distrib)
  have "\<bar>?n / ?p - \<bar>x\<bar>\<bar> = \<bar>?n - \<bar>x\<bar> * ?p\<bar> / ?p"
    by (subst eq) (simp add: abs_divide)
  also have "\<dots> \<le> (1 / 2) / ?p"
    using half p by (intro divide_right_mono) simp_all
  also have "\<dots> = 1 / (2 * ?p)"
    by simp
  finally have mag: "\<bar>?n / ?p - \<bar>x\<bar>\<bar> \<le> 1 / (2 * ?p)" .
  have "sgn x * \<bar>x\<bar> = x"
    by (rule sgn_mult_abs)
  then have "rounded_to f x - x = sgn x * (?n / ?p - \<bar>x\<bar>)"
    by (simp add: rounded_to_def right_diff_distrib)
  then have "\<bar>rounded_to f x - x\<bar> = \<bar>sgn x\<bar> * \<bar>?n / ?p - \<bar>x\<bar>\<bar>"
    by (simp add: abs_mult)
  also have "\<dots> \<le> \<bar>?n / ?p - \<bar>x\<bar>\<bar>"
    by (cases "x = 0") (simp_all add: abs_sgn_eq)
  finally show ?thesis
    using mag by linarith
qed

lemma toFixed_writes_rounded:
  assumes "0 < f"
  shows "writes_rounded f x (toFixed f x)"
proof -
  define n where "n = nat \<lfloor>\<bar>x\<bar> * 10 ^ f + 1 / 2\<rfloor>"
  define m where "m = (if length (show_nat n) \<le> f
      then replicate (f + 1 - length (show_nat n)) (CHR ''0'') @ show_nat n else show_nat n)"
  define ip where "ip = take (length m - f) m"
  define fp where "fp = drop (length m - f) m"
  have len: "f < length m"
    by (auto simp: m_def)
  have split: "ip @ fp = m"
    by (simp add: ip_def fp_def)
  have "toFixed f x = (if x < 0 then ''-'' else []) @ ip @ ''.'' @ fp"
    using assms by (simp add: toFixed_def Let_def n_def m_def ip_def fp_def)
  moreover have "ip \<noteq> []"
    using len by (auto simp: ip_def)
  moreover have "length fp = f"
    using len by (simp add: fp_def)
  moreover have "list_all is_digit (ip @ fp)"
    unfolding split using digits_show_nat [of n]
    by (auto simp: m_def is_digit_zero list_all_iff)
  moreover have "of_nat (digits_value (ip @ fp)) / 10 ^ f = \<bar>rounded_to f x\<bar>"
  proof -
    have "digits_value m = n"
      by (simp add: m_def digits_value_zeros digits_value_show_nat)
    moreover have "(of_nat n :: rat) = of_int \<lfloor>\<bar>x\<bar> * 10 ^ f + 1 / 2\<rfloor>"
      unfolding n_def by (simp add: of_nat_nat)
    ultimately show ?thesis
      by (simp add: split abs_rounded_to)
  qed
  ultimately show ?thesis
    unfolding writes_rounded_def by blast
qed


lemma key_round_up: "getCacheKey 37.77496 (- 122.41946) = ''37.7750,-122.4195''"
  by (simp add: key_eval)

lemma key_tie: "getCacheKey 0.00005 (- 0.00005) = ''0.0001,-0.0001''"
  by (simp add: key_eval)

lemma key_small_negative: "getCacheKey (- 0.00001) 0 = ''-0.0000,0.0000''"
  by (simp add: key_eval)

lemma key_small_positive: "getCacheKey 0.00001 0 = ''0.0000,0.0000''"
  by (simp add: key_eval)

text \<open>
  Claim C9, as the code has it. The key is the two coordinates joined by a comma,
  each written as a minus sign when the coordinate is negative (also when it rounds
  to zero) followed by its magnitude rounded to 4 decimal places, with exactly four
  digits after the point; the rounded value is within \<open>0.00005\<close> of the
  coordinate. So \<open>(37.77496, -122.41946)\<close> has the key
  \<^verbatim>\<open>"37.7750,-122.4195"\<close>, the tie \<open>(0.00005, -0.00005)\<close> the key
  \<^verbatim>\<open>"0.0001,-0.0001"\<close>, and the pairs \<open>(37.774912345, -122.419412345)\<close> and
  \<open>(37.77491, -122.41941)\<close>, as decimal numbers and as the doubles nearest to
  them, all have the key \<^verbatim>\<open>"37.7749,-122.4194"\<close>; with caching enabled a
  \<^verbatim>\<open>set\<close> at the first pair followed, no later than the entry's expiry, by a
  \<^verbatim>\<open>get\<close> at the second pair returns the payload that was set, marked as coming
  from the cache.
\<close>

theorem cache_key_rounding:
  "(\<exists>a b. getCacheKey lat lon = a @ '','' @ b \<and>
      writes_rounded 4 lat a \<and> writes_rounded 4 lon b) \<and>
   \<bar>rounded_to 4 lat - lat\<bar> \<le> 1 / 20000 \<and> \<bar>rounded_to 4 lon - lon\<bar> \<le> 1 / 20000 \<and>
   getCacheKey 37.77496 (- 122.41946) = ''37.7750,-122.4195'' \<and>
   getCacheKey 0.00005 (- 0.00005) = ''0.0001,-0.0001'' \<and>
   getCacheKey 37.774912345 (- 122.419412345) = ''37.7749,-122.4194'' \<and>
   getCacheKey 37.77491 (- 122.41941) = ''37.7749,-122.4194'' \<and>
   getCacheKey (5316346286277973 / 140737488355328) (- 8614500309685267 / 70368744177664)
     = ''37.7749,-122.4194'' \<and>
   getCacheKey (5316345956248563 / 140737488355328) (- 4307250072335281 / 35184372088832)
     = ''37.7749,-122.4194'' \<and>
   (cache_enabled cfg \<and> now' \<le> now + wc_ttl c \<longrightarrow>
      fst (get cfg now' (set_entry cfg now c (37.774912345, - 122.419412345) d)
             (37.77491, - 122.41941))
        = Some (d\<lparr>wd_source := Cache\<rparr>))"
proof -
  have written: "\<exists>a b. getCacheKey lat lon = a @ '','' @ b \<and>
      writes_rounded 4 lat a \<and> writes_rounded 4 lon b"
    using toFixed_writes_rounded [of 4 lat] toFixed_writes_rounded [of 4 lon]
    by (auto simp: getCacheKey_def)
  have near: "\<bar>rounded_to 4 lat - lat\<bar> \<le> 1 / 20000" "\<bar>rounded_to 4 lon - lon\<bar> \<le> 1 / 20000"
    using rounded_to_nearest [of 4 lat] rounded_to_nearest [of 4 lon] by simp_all
  have hit: "fst (get cfg now' (set_entry cfg now c (37.774912345, - 122.419412345) d)
             (37.77491, - 122.41941)) = Some (d\<lparr>wd_source := Cache\<rparr>)"
    if en: "cache_enabled cfg" and fresh: "now' \<le> now + wc_ttl c"
  proof -
    let ?e = "\<lparr>data = d, ce_timestamp = now, expiresAt = now + wc_ttl c\<rparr>"
    let ?c = "set_entry cfg now c (37.774912345, - 122.419412345) d"
    have "Map_get (cache ?c) (getCacheKey (fst (37.774912345, - 122.419412345 :: rat))
            (snd (37.774912345 :: rat, - 122.419412345))) = Some ?e"
      using en by (rule set_entry_stores)
    then have "Map_get (cache ?c) (getCacheKey (fst (37.77491 :: rat, - 122.41941 :: rat))
            (snd (37.77491 :: rat, - 122.41941 :: rat))) = Some ?e"
      by (simp only: key_decimal_long key_decimal_short fst_conv snd_conv)
    moreover have "\<not> now' > expiresAt ?e"
      using fresh by simp
    ultimately show ?thesis
      using get_hit [OF en, of ?c "(37.77491, - 122.41941)" ?e now'] by simp
  qed
  from written near hit key_round_up key_tie key_decimal_long key_decimal_short key_double_long
    key_double_short
  show ?thesis by blast
qed

theorem cache_key_rounding_witness:
  "cache_enabled default_config \<and> (601000::int) \<le> 1000 + wc_ttl sample_cache \<and>
   fst (get default_config 601000
          (set_entry default_config 1000 sample_cache (37.774912345, - 122.419412345) sample_data)
          (37.77491, - 122.41941))
     = Some (sample_data\<lparr>wd_source := Cache\<rparr>)"
proof -
  have h: "cache_enabled default_config \<and> (601000::int) \<le> 1000 + wc_ttl sample_cache"
    by (simp add: default_config_def sample_cache_def)
  with cache_key_rounding [where cfg = default_config and now' = 601000 and now = 1000
      and c = sample_cache and d = sample_data and lat = 0 and lon = 0]
  show ?thesis by blast
qed

lemma get_other_key_misses:
  assumes "cache_enabled cfg"
    and "getCacheKey (fst loc') (snd loc') \<noteq> getCacheKey (fst loc) (snd loc)"
  shows "fst (get cfg now' (set_entry cfg now (WeatherCache_new cfg n t) loc d) loc') = None"
  using assms
  by (simp add: get_def set_entry_def WeatherCache_new_def Map_get_def Map_has_def
      Map_set_def Map_delete_def Let_def)

text \<open>
  Claim C9 as stated fails next to zero. The coordinates \<open>-0.00001\<close> and
  \<open>0.00001\<close> are the same number once rounded to 4 decimal places, namely 0, but
  their keys differ: the first is written \<^verbatim>\<open>"-0.0000"\<close>, the second
  \<^verbatim>\<open>"0.0000"\<close>. So the key is not a function of the rounded coordinates, and a
  \<^verbatim>\<open>get\<close> at \<open>(0.00001, 0)\<close> right after a \<^verbatim>\<open>set\<close> at \<open>(-0.00001, 0)\<close> misses.
\<close>

theorem cache_key_rounding_counterexample:
  "rounded_to 4 (- 0.00001) = 0 \<and> rounded_to 4 0.00001 = 0 \<and>
   getCacheKey (- 0.00001) 0 = ''-0.0000,0.0000'' \<and>
   getCacheKey 0.00001 0 = ''0.0000,0.0000'' \<and>
   fst (get default_config 1001
          (set_entry default_config 1000 (WeatherCache_new default_config None None)
             (- 0.00001, 0) sample_data)
          (0.00001, 0)) = None"
proof -
  have "rounded_to 4 (- 0.00001) = 0" "rounded_to 4 0.00001 = 0"
    by (simp_all add: rounded_to_def floor_rat_numeral)
  moreover have "getCacheKey (fst (0.00001 :: rat, 0 :: rat)) (snd (0.00001 :: rat, 0 :: rat))
      \<noteq> getCacheKey (fst (- 0.00001 :: rat, 0 :: rat)) (snd (- 0.00001 :: rat, 0 :: rat))"
    unfolding fst_conv snd_conv key_small_negative key_small_positive by simp
  then have "fst (get default_config 1001
          (set_entry default_config 1000
             (WeatherCache_new default_config None None :: (int, int list, string) WeatherCache)
             (- 0.00001, 0) sample_data)
          (0.00001, 0)) = None"
    by (intro get_other_key_misses) (simp add: default_config_def)
  ultimately show ?thesis
    using key_small_negative key_small_positive by simp
qed

text \<open>
  Claim C10. \<^verbatim>\<open>has\<close> does not read the enabled flag. With caching disabled and an
  unexpired entry stored for a location, \<^verbatim>\<open>has\<close> answers true and leaves the
  cache as it is, while \<^verbatim>\<open>get\<close> answers absent, as it does for every cache and
  every location once caching is disabled.
\<close>

theorem has_ignores_disabled_cache:
  fixes c :: "('c, 'f, 'l) WeatherCache"
  assumes "\<not> cache_enabled cfg"
    and "Map_get (cache c) (getCacheKey (fst loc) (snd loc)) = Some entry"
    and "\<not> now > expiresAt entry"
  shows "has now c loc = (True, c) \<and> get cfg now c loc = (None, c) \<and>
         (\<forall>now' c' loc'. get cfg now' (c' :: ('c, 'f, 'l) WeatherCache) loc' = (None, c'))"
  using assms by (simp add: has_def get_def Let_def)

theorem has_ignores_disabled_cache_witness:
  "\<not> cache_enabled disabled_config \<and>
   Map_get (cache sample_cache) (getCacheKey (fst (1, 2)) (snd (1, 2))) = Some sample_entry \<and>
   \<not> 5000 > expiresAt sample_entry \<and>
   has 5000 sample_cache (1, 2) = (True, sample_cache) \<and>
   get disabled_config 5000 sample_cache (1, 2) = (None, sample_cache)"
  using has_ignores_disabled_cache [of disabled_config sample_cache "(1, 2)" sample_entry 5000]
  by (simp add: key_12 Map_get_def disabled_config_def default_config_def sample_cache_def
      sample_entry_def)



subsection \<open>Recency order and the capacity bound\<close>

lemma keys_delete: "Map_keys (Map_delete m k) = removeAll k (Map_keys m)"
  by (simp add: Map_keys_def Map_delete_def delete_keys)

lemma keys_set:
  "Map_keys (Map_set m k v) = (if k \<in> set (Map_keys m) then Map_keys m else Map_keys m @ [k])"
  by (simp add: Map_keys_def Map_set_def update_keys)

lemma has_iff_key: "Map_has m k \<longleftrightarrow> k \<in> set (Map_keys m)"
  by (simp add: Map_has_def Map_keys_def map_of_eq_None_iff)

lemma get_None_iff_key: "Map_get m k = None \<longleftrightarrow> k \<notin> set (Map_keys m)"
  by (simp add: Map_get_def Map_keys_def map_of_eq_None_iff)

lemma length_keys: "length (Map_keys m) = length m"
  by (simp add: Map_keys_def)

text \<open>What each method does to the list of keys.\<close>

lemma keys_get:
  "Map_keys (cache (snd (get cfg now c loc))) =
     (if fst (get cfg now c loc) \<noteq> None
      then removeAll (getCacheKey (fst loc) (snd loc)) (Map_keys (cache c))
             @ [getCacheKey (fst loc) (snd loc)]
      else Map_keys (cache c)) \<or>
   fst (get cfg now c loc) = None \<and>
   Map_keys (cache (snd (get cfg now c loc))) =
     removeAll (getCacheKey (fst loc) (snd loc)) (Map_keys (cache c))"
  by (auto simp: get_def Let_def keys_delete keys_set split: option.splits)

lemma get_hit_key:
  "fst (get cfg now c loc) \<noteq> None \<Longrightarrow> getCacheKey (fst loc) (snd loc) \<in> set (Map_keys (cache c))"
  using get_None_iff_key [of "cache c" "getCacheKey (fst loc) (snd loc)"]
  by (auto simp: get_def Let_def split: option.splits if_splits)

lemma keys_has:
  "Map_keys (cache (snd (has now c loc))) = Map_keys (cache c) \<or>
   Map_keys (cache (snd (has now c loc))) =
     removeAll (getCacheKey (fst loc) (snd loc)) (Map_keys (cache c))"
  by (auto simp: has_def Let_def keys_delete split: option.splits)

lemma keys_set_entry:
  assumes "cache_enabled cfg"
  shows "Map_keys (cache (set_entry cfg now c loc d)) =
     removeAll (getCacheKey (fst loc) (snd loc))
       (if int (length (Map_keys (cache c))) \<ge> maxEntries c
           \<and> getCacheKey (fst loc) (snd loc) \<notin> set (Map_keys (cache c))
        then (case Map_keys (cache c) of
                [] \<Rightarrow> []
              | firstKey # _ \<Rightarrow>
                  if firstKey \<noteq> [] then removeAll firstKey (Map_keys (cache c))
                  else Map_keys (cache c))
        else Map_keys (cache c))
     @ [getCacheKey (fst loc) (snd loc)]"
proof -
  have "cache c = [] \<or> (\<exists>k e m. cache c = (k, e) # m)"
    by (cases "cache c") auto
  then show ?thesis
    using assms
    by (auto simp: set_entry_def Let_def keys_delete keys_set has_iff_key length_keys
        simp: Map_keys_def [of "[]"] Map_keys_def [of "_ # _"])
qed

lemma maxEntries_exec: "maxEntries (exec cfg x c) = maxEntries c"
  by (cases x) (auto simp: get_def set_entry_def has_def clear_def Let_def split: option.splits)

lemma maxEntries_run: "maxEntries (run cfg xs c) = maxEntries c"
  by (induction xs arbitrary: c) (simp_all add: maxEntries_exec)

text \<open>The order invariant on bare key lists.\<close>

lemma sorted_removeAll:
  "sorted_wrt P ks \<Longrightarrow> sorted_wrt P (removeAll k ks)"
  by (induction ks) auto

lemma sorted_touch:
  assumes "sorted_wrt (\<lambda>a b. u a < u b) ks" and "\<forall>x \<in> set ks. u x \<le> i"
  shows "sorted_wrt (\<lambda>a b. (u(k := Suc i)) a < (u(k := Suc i)) b) (removeAll k ks @ [k])"
proof -
  have "sorted_wrt (\<lambda>a b. u a < u b) (removeAll k ks)"
    using assms(1) by (rule sorted_removeAll)
  then have "sorted_wrt (\<lambda>a b. (u(k := Suc i)) a < (u(k := Suc i)) b) (removeAll k ks)"
    by (rule sorted_wrt_mono_rel [rotated]) auto
  moreover have "\<forall>x \<in> set (removeAll k ks). (u(k := Suc i)) x < (u(k := Suc i)) k"
    using assms(2) by (auto simp: less_Suc_eq_le)
  ultimately show ?thesis
    by (simp add: sorted_wrt_append)
qed

lemma lru_inv_delete:
  assumes "lru_inv u i c"
    and "Map_keys (cache c') = removeAll k (Map_keys (cache c))"
    and "maxEntries c' = maxEntries c"
  shows "lru_inv u (Suc i) c'"
proof -
  have "length (removeAll k (Map_keys (cache c))) \<le> length (Map_keys (cache c))"
    by (simp add: length_removeAll_less_eq)
  then have "int (length (removeAll k (Map_keys (cache c)))) \<le> int (length (Map_keys (cache c)))"
    by simp
  also have "\<dots> \<le> maxEntries c"
    using assms(1) by (simp add: lru_inv_def)
  finally have "int (length (Map_keys (cache c'))) \<le> maxEntries c'"
    by (simp add: assms(2,3))
  then show ?thesis
    using assms by (auto simp: lru_inv_def distinct_removeAll sorted_removeAll le_Suc_eq)
qed

lemma lru_inv_same:
  assumes "lru_inv u i c"
    and "Map_keys (cache c') = Map_keys (cache c)"
    and "maxEntries c' = maxEntries c"
  shows "lru_inv u (Suc i) c'"
  using assms by (auto simp: lru_inv_def le_Suc_eq)

lemma length_removeAll_distinct:
  "distinct ks \<Longrightarrow> k \<in> set ks \<Longrightarrow> Suc (length (removeAll k ks)) = length ks"
  by (induction ks) auto

lemma lru_inv_touch:
  assumes "lru_inv u i c"
    and "Map_keys (cache c') = removeAll k ks @ [k]"
    and "set ks \<subseteq> set (Map_keys (cache c))"
    and "sorted_wrt (\<lambda>a b. u a < u b) ks"
    and "distinct ks"
    and "int (Suc (length (removeAll k ks))) \<le> maxEntries c"
    and "maxEntries c' = maxEntries c"
    and "k \<noteq> []"
  shows "lru_inv (u(k := Suc i)) (Suc i) c'"
proof -
  have bound: "\<forall>x \<in> set ks. u x \<le> i"
    using assms(1,3) by (auto simp: lru_inv_def)
  have "sorted_wrt (\<lambda>a b. (u(k := Suc i)) a < (u(k := Suc i)) b) (removeAll k ks @ [k])"
    using assms(4) bound by (rule sorted_touch)
  moreover have "distinct (removeAll k ks @ [k])"
    using assms(5) by (simp add: distinct_removeAll)
  moreover have "\<forall>x \<in> set (removeAll k ks @ [k]). x \<noteq> [] \<and> (u(k := Suc i)) x \<le> Suc i"
    using assms(1,3,8) bound by (auto simp: lru_inv_def)
  ultimately show ?thesis
    using assms(1,2,6,7) by (simp add: lru_inv_def)
qed

lemma evicted_keys:
  fixes k :: string
  assumes "lru_inv u i c"
  defines "ks \<equiv> Map_keys (cache c)"
  defines "E \<equiv> (if int (length ks) \<ge> maxEntries c \<and> k \<notin> set ks
                 then (case ks of [] \<Rightarrow> []
                       | firstKey # _ \<Rightarrow> if firstKey \<noteq> [] then removeAll firstKey ks else ks)
                 else ks)"
  shows "set E \<subseteq> set ks" and "sorted_wrt (\<lambda>a b. u a < u b) E" and "distinct E"
    and "int (Suc (length (removeAll k E))) \<le> maxEntries c"
    and "int (length ks) \<ge> maxEntries c \<and> k \<notin> set ks \<Longrightarrow> E = tl ks \<and> ks \<noteq> []"
proof -
  have inv: "distinct ks" "sorted_wrt (\<lambda>a b. u a < u b) ks" "\<forall>x \<in> set ks. x \<noteq> []"
      "int (length ks) \<le> maxEntries c" "1 \<le> maxEntries c"
    using assms(1) by (auto simp: lru_inv_def ks_def)
  have full: "E = tl ks \<and> ks \<noteq> []" if "int (length ks) \<ge> maxEntries c \<and> k \<notin> set ks"
  proof (cases ks)
    case Nil
    with that inv(5) show ?thesis by simp
  next
    case (Cons k0 rest)
    with inv(1,3) that show ?thesis by (simp add: E_def)
  qed
  then show "int (length ks) \<ge> maxEntries c \<and> k \<notin> set ks \<Longrightarrow> E = tl ks \<and> ks \<noteq> []" .
  show "set E \<subseteq> set ks"
    by (auto simp: E_def split: list.splits)
  show "sorted_wrt (\<lambda>a b. u a < u b) E"
    using inv(2) by (auto simp: E_def sorted_removeAll split: list.splits)
  show "distinct E"
    using inv(1) by (auto simp: E_def distinct_removeAll split: list.splits)
  show "int (Suc (length (removeAll k E))) \<le> maxEntries c"
  proof (cases "k \<in> set ks")
    case True
    then have "E = ks" by (simp add: E_def)
    with True inv(1,4) show ?thesis
      by (simp add: length_removeAll_distinct)
  next
    case False
    show ?thesis
    proof (cases "int (length ks) \<ge> maxEntries c")
      case True
      with False full have e: "E = tl ks" "ks \<noteq> []" by auto
      with False have "k \<notin> set E" by (auto dest: list.set_sel(2))
      then have "removeAll k E = E" by simp
      moreover have "Suc (length (tl ks)) = length ks" using e(2) by simp
      ultimately show ?thesis using inv(4) e(1) by simp
    next
      case notfull: False
      then have "E = ks" by (simp add: E_def)
      with False notfull show ?thesis by simp
    qed
  qed
qed

lemma lru_inv_step:
  assumes "lru_inv u i c"
  shows "lru_inv (case touches cfg x c of None \<Rightarrow> u | Some k \<Rightarrow> u(k := Suc i)) (Suc i)
           (exec cfg x c)"
proof (cases x)
  case (OpGet loc now)
  let ?k = "getCacheKey (fst loc) (snd loc)"
  have m: "maxEntries (snd (get cfg now c loc)) = maxEntries c"
    using maxEntries_exec [of cfg "OpGet loc now" c] by simp
  show ?thesis
  proof (cases "fst (get cfg now c loc) = None")
    case True
    with keys_get [of cfg now c loc] assms m show ?thesis
      by (auto simp: OpGet intro: lru_inv_same lru_inv_delete)
  next
    case False
    then have k: "?k \<in> set (Map_keys (cache c))"
      by (rule get_hit_key)
    from False keys_get [of cfg now c loc]
    have ks: "Map_keys (cache (snd (get cfg now c loc))) =
        removeAll ?k (Map_keys (cache c)) @ [?k]"
      by auto
    have "lru_inv (u(?k := Suc i)) (Suc i) (snd (get cfg now c loc))"
      using assms ks
    proof (rule lru_inv_touch)
      show "int (Suc (length (removeAll ?k (Map_keys (cache c))))) \<le> maxEntries c"
        using assms k by (simp add: lru_inv_def length_removeAll_distinct)
    qed (use assms m in \<open>auto simp: lru_inv_def getCacheKey_nonempty\<close>)
    with False show ?thesis
      by (simp add: OpGet)
  qed
next
  case (OpSet loc d now)
  let ?k = "getCacheKey (fst loc) (snd loc)"
  show ?thesis
  proof (cases "cache_enabled cfg")
    case False
    then have "set_entry cfg now c loc d = c"
      by (simp add: set_entry_def)
    with False assms show ?thesis
      by (auto simp: OpSet intro: lru_inv_same)
  next
    case True
    note ev = evicted_keys [OF assms, of ?k]
    have "lru_inv (u(?k := Suc i)) (Suc i) (set_entry cfg now c loc d)"
      using assms keys_set_entry [OF True, of now c loc d] ev(1-4)
    proof (rule lru_inv_touch)
      show "maxEntries (set_entry cfg now c loc d) = maxEntries c"
        using maxEntries_exec [of cfg "OpSet loc d now" c] by simp
    qed (rule getCacheKey_nonempty)
    with True show ?thesis
      by (simp add: OpSet)
  qed
next
  case (OpHas loc now)
  have "maxEntries (snd (has now c loc)) = maxEntries c"
    using maxEntries_exec [of cfg "OpHas loc now" c] by simp
  with keys_has [of now c loc] assms show ?thesis
    by (auto simp: OpHas intro: lru_inv_same lru_inv_delete)
next
  case OpClear
  with assms show ?thesis
    by (simp add: lru_inv_def clear_def Map_keys_def)
qed

lemma lru_inv_run:
  "lru_inv u i c \<Longrightarrow> lru_inv (last_touch_from cfg i u xs c) (i + length xs) (run cfg xs c)"
proof (induction xs arbitrary: u i c)
  case Nil
  then show ?case by simp
next
  case (Cons x xs)
  from lru_inv_step [OF Cons.prems, of cfg x]
  have "lru_inv (last_touch_from cfg (Suc i)
           (case touches cfg x c of None \<Rightarrow> u | Some k \<Rightarrow> u(k := Suc i)) xs (exec cfg x c))
         (Suc i + length xs) (run cfg xs (exec cfg x c))"
    by (rule Cons.IH)
  then show ?case by simp
qed

text \<open>\<^verbatim>\<open>new WeatherCache()\<close> has capacity 10.\<close>

lemma WeatherCache_new_default:
  "WeatherCache_new cfg None t = WeatherCache_new cfg (Some 10) t"
  by (simp add: WeatherCache_new_def)

lemma lru_inv_new:
  "1 \<le> n \<Longrightarrow> lru_inv (\<lambda>k. 0) 0 (WeatherCache_new cfg (Some n) t)"
  by (simp add: lru_inv_def WeatherCache_new_def Map_keys_def)

lemma lru_inv_reachable:
  assumes "1 \<le> n"
  shows "lru_inv (last_touch cfg xs (WeatherCache_new cfg (Some n) t)) (length xs)
           (run cfg xs (WeatherCache_new cfg (Some n) t))"
proof -
  have "lru_inv (\<lambda>k. 0) 0 (WeatherCache_new cfg (Some n) t)"
    using assms by (rule lru_inv_new)
  from lru_inv_run [OF this, of cfg xs] show ?thesis
    by (simp add: last_touch_def)
qed

lemma set_entry_on_full:
  assumes "lru_inv u i c" and "cache_enabled cfg"
    and "getCacheKey (fst loc) (snd loc) \<notin> set (Map_keys (cache c))"
    and "int (size_of c) = maxEntries c"
  shows "\<exists>lru rest. Map_keys (cache c) = lru # rest \<and> (\<forall>k \<in> set rest. u lru < u k) \<and>
           Map_keys (cache (set_entry cfg now c loc d)) = rest @ [getCacheKey (fst loc) (snd loc)]"
proof -
  let ?k = "getCacheKey (fst loc) (snd loc)"
  let ?ks = "Map_keys (cache c)"
  have full: "int (length ?ks) \<ge> maxEntries c \<and> ?k \<notin> set ?ks"
    using assms(3,4) by (simp add: size_of_def length_keys)
  from evicted_keys(5) [OF assms(1) full]
  obtain lru rest where ks: "?ks = lru # rest"
    by (cases ?ks) auto
  have nonempty: "lru \<noteq> []" and dist: "lru \<notin> set rest"
    and sorted: "\<forall>k \<in> set rest. u lru < u k"
    using assms(1) by (auto simp: lru_inv_def ks)
  have "Map_keys (cache (set_entry cfg now c loc d)) = removeAll ?k rest @ [?k]"
    using full nonempty dist by (simp add: keys_set_entry [OF assms(2)] ks)
  moreover have "?k \<notin> set rest"
    using assms(3) by (simp add: ks)
  ultimately show ?thesis
    using ks sorted by simp
qed

lemma get_then_set_keeps_key:
  assumes "lru_inv u i c" and "cache_enabled cfg" and "2 \<le> maxEntries c"
    and "fst (get cfg now' c loc') \<noteq> None"
  shows "getCacheKey (fst loc') (snd loc')
           \<in> set (Map_keys (cache (set_entry cfg now (snd (get cfg now' c loc')) loc d)))"
proof -
  let ?k' = "getCacheKey (fst loc') (snd loc')"
  let ?k = "getCacheKey (fst loc) (snd loc)"
  let ?c = "snd (get cfg now' c loc')"
  let ?ks = "Map_keys (cache ?c)"
  have inv: "lru_inv (u(?k' := Suc i)) (Suc i) ?c"
    using lru_inv_step [OF assms(1), of cfg "OpGet loc' now'"] assms(4) by simp
  have m: "maxEntries ?c = maxEntries c"
    using maxEntries_exec [of cfg "OpGet loc' now'" c] by simp
  have ks: "?ks = removeAll ?k' (Map_keys (cache c)) @ [?k']"
    using assms(4) keys_get [of cfg now' c loc'] by auto
  show ?thesis
  proof (cases "int (length ?ks) \<ge> maxEntries ?c \<and> ?k \<notin> set ?ks")
    case True
    moreover have "int (length ?ks) \<le> maxEntries ?c"
      using inv by (simp add: lru_inv_def)
    ultimately have "?k \<notin> set ?ks" and "int (size_of ?c) = maxEntries ?c"
      by (simp_all add: size_of_def length_keys)
    from set_entry_on_full [OF inv assms(2) this, of now d]
    obtain lru rest where lr: "?ks = lru # rest"
        "Map_keys (cache (set_entry cfg now ?c loc d)) = rest @ [?k]"
      by blast
    have "2 \<le> length ?ks"
      using True assms(3) m by simp
    then have "rest \<noteq> []"
      using lr(1) by auto
    then have "last ?ks \<in> set rest"
      using lr(1) by (metis last_ConsR last_in_set)
    then show ?thesis
      using ks lr(2) by simp
  next
    case False
    then have "Map_keys (cache (set_entry cfg now ?c loc d)) = removeAll ?k ?ks @ [?k]"
      by (auto simp: keys_set_entry [OF assms(2)])
    then show ?thesis
      using ks by (cases "?k = ?k'") auto
  qed
qed

lemma key_34: "getCacheKey 3 4 = ''3.0000,4.0000''"
  by (simp add: key_eval)

lemma key_56: "getCacheKey 5 6 = ''5.0000,6.0000''"
  by (simp add: key_eval)

lemmas cache_eval =
  key_12 key_34 key_56 get_def set_entry_def has_def clear_def size_of_def WeatherCache_new_def
  Map_get_def Map_has_def Map_set_def Map_delete_def Map_keys_def Let_def
  default_config_def sample_ops_def

text \<open>
  Claim C3, as the code has it. Take a cache constructed with an integer capacity
  \<open>n \<ge> 1\<close>, caching enabled, and any sequence of operations run on it. Then
  the store holds at most \<open>n\<close> entries. If it holds exactly \<open>n\<close> and \<^verbatim>\<open>set\<close> is
  called with an absent key, the key at the head of the store is removed, no other,
  and the new key is appended; that head is the key whose last touch (a \<^verbatim>\<open>set\<close>
  of it, or a \<^verbatim>\<open>get\<close> that hit it) is older than the last touch of every other
  key in the store. And if \<open>n \<ge> 2\<close>, a key that a \<^verbatim>\<open>get\<close> has just hit is
  still in the store after the next \<^verbatim>\<open>set\<close>, whatever key that \<^verbatim>\<open>set\<close> inserts.
\<close>

theorem lru_eviction:
  fixes xs :: "('c, 'f, 'l) cache_op list"
  assumes "cache_enabled cfg" and "1 \<le> n"
  shows "let c = run cfg xs (WeatherCache_new cfg (Some n) t);
             u = last_touch cfg xs (WeatherCache_new cfg (Some n) t)
         in maxEntries c = n \<and> int (size_of c) \<le> n \<and>
            (\<forall>loc d now.
               getCacheKey (fst loc) (snd loc) \<notin> set (Map_keys (cache c)) \<and> int (size_of c) = n
               \<longrightarrow> (\<exists>lru rest.
                      Map_keys (cache c) = lru # rest \<and> (\<forall>k \<in> set rest. u lru < u k) \<and>
                      Map_keys (cache (set_entry cfg now c loc d))
                        = rest @ [getCacheKey (fst loc) (snd loc)])) \<and>
            (\<forall>loc' now' loc d now.
               2 \<le> n \<and> fst (get cfg now' c loc') \<noteq> None
               \<longrightarrow> getCacheKey (fst loc') (snd loc')
                     \<in> set (Map_keys (cache (set_entry cfg now (snd (get cfg now' c loc')) loc d))))"
proof -
  let ?init = "WeatherCache_new cfg (Some n) t :: ('c, 'f, 'l) WeatherCache"
  let ?c = "run cfg xs ?init"
  let ?u = "last_touch cfg xs ?init"
  have inv: "lru_inv ?u (length xs) ?c"
    using assms(2) by (rule lru_inv_reachable)
  have m: "maxEntries ?c = n"
    by (simp add: maxEntries_run WeatherCache_new_def)
  have bound: "int (size_of ?c) \<le> n"
    using inv m by (simp add: lru_inv_def size_of_def length_keys)
  have evict: "\<exists>lru rest. Map_keys (cache ?c) = lru # rest \<and> (\<forall>k \<in> set rest. ?u lru < ?u k) \<and>
      Map_keys (cache (set_entry cfg now ?c loc d)) = rest @ [getCacheKey (fst loc) (snd loc)]"
    if "getCacheKey (fst loc) (snd loc) \<notin> set (Map_keys (cache ?c)) \<and> int (size_of ?c) = n"
    for loc d now
    using set_entry_on_full [OF inv assms(1), of loc now d] that m by simp
  have protect: "getCacheKey (fst loc') (snd loc')
      \<in> set (Map_keys (cache (set_entry cfg now (snd (get cfg now' ?c loc')) loc d)))"
    if "2 \<le> n \<and> fst (get cfg now' ?c loc') \<noteq> None" for loc' now' loc d now
    using get_then_set_keeps_key [OF inv assms(1), of now' loc' now loc d] that m by simp
  from m bound evict protect show ?thesis
    unfolding Let_def by blast
qed

theorem lru_eviction_witness:
  "cache_enabled default_config \<and> (1::int) \<le> 2 \<and>
   Map_keys (cache (run default_config sample_ops (WeatherCache_new default_config (Some 2) None)))
     = [''3.0000,4.0000'', ''1.0000,2.0000''] \<and>
   last_touch default_config sample_ops (WeatherCache_new default_config (Some 2) None)
     ''3.0000,4.0000'' = 2 \<and>
   last_touch default_config sample_ops (WeatherCache_new default_config (Some 2) None)
     ''1.0000,2.0000'' = 3 \<and>
   Map_keys (cache (set_entry default_config 1003
       (run default_config sample_ops (WeatherCache_new default_config (Some 2) None))
       (5, 6) sample_data))
     = [''1.0000,2.0000'', ''5.0000,6.0000'']"
proof -
  let ?c = "run default_config sample_ops (WeatherCache_new default_config (Some 2) None)"
  have en: "cache_enabled default_config" and cap: "(1::int) \<le> 2"
    by (simp_all add: default_config_def)
  have ks: "Map_keys (cache ?c) = [''3.0000,4.0000'', ''1.0000,2.0000'']"
    by (simp add: cache_eval)
  have touch: "last_touch default_config sample_ops (WeatherCache_new default_config (Some 2) None)
       ''3.0000,4.0000'' = 2 \<and>
     last_touch default_config sample_ops (WeatherCache_new default_config (Some 2) None)
       ''1.0000,2.0000'' = 3"
    by (simp add: cache_eval last_touch_def)
  have full: "getCacheKey (fst (5 :: rat, 6 :: rat)) (snd (5 :: rat, 6 :: rat))
        \<notin> set (Map_keys (cache ?c)) \<and>
      int (size_of ?c) = 2"
    using ks by (simp add: key_56 size_of_def flip: length_keys)
  note evict = lru_eviction [OF en cap, of sample_ops None, unfolded Let_def,
      THEN conjunct2, THEN conjunct2, THEN conjunct1, rule_format, OF full]
  from evict [of 1003 sample_data]
  obtain lru rest where "Map_keys (cache ?c) = lru # rest"
    and "Map_keys (cache (set_entry default_config 1003 ?c (5, 6) sample_data))
           = rest @ [''5.0000,6.0000'']"
    by (auto simp: key_56)
  with ks have "Map_keys (cache (set_entry default_config 1003 ?c (5, 6) sample_data))
      = [''1.0000,2.0000'', ''5.0000,6.0000'']"
    by simp
  with en cap ks touch show ?thesis
    by blast
qed

text \<open>
  Claim C3 as stated fails at the edges of the capacity. With \<open>maxEntries = 0\<close>
  one \<^verbatim>\<open>set\<close> leaves an entry in the store, which then holds more than
  \<open>maxEntries\<close>. With \<open>maxEntries = 1\<close> a \<^verbatim>\<open>get\<close> that hits the only key does not
  protect it: the next \<^verbatim>\<open>set\<close> of another key evicts it.
\<close>

theorem lru_eviction_counterexample:
  "maxEntries (run default_config [OpSet (1, 2) sample_data 1000]
      (WeatherCache_new default_config (Some 0) None)) = 0 \<and>
   size_of (run default_config [OpSet (1, 2) sample_data 1000]
      (WeatherCache_new default_config (Some 0) None)) = 1 \<and>
   fst (get default_config 1001
      (run default_config [OpSet (1, 2) sample_data 1000]
         (WeatherCache_new default_config (Some 1) None)) (1, 2))
     = Some (sample_data\<lparr>wd_source := Cache\<rparr>) \<and>
   Map_keys (cache (set_entry default_config 1002
      (snd (get default_config 1001
         (run default_config [OpSet (1, 2) sample_data 1000]
            (WeatherCache_new default_config (Some 1) None)) (1, 2)))
      (3, 4) sample_data))
     = [''3.0000,4.0000'']"
  by (simp add: cache_eval)


end
